theory Spec2Isabelle
  imports Main
begin

section \<open>The extension lifecycle manager: data model\<close>

text \<open>
  This theory embeds \<^verbatim>\<open>chrome/browser/extensions/extensions_service.cc\<close>: the class
  \<^verbatim>\<open>ExtensionsService\<close>, its two registries (the enabled and the disabled list), the
  pending map, the unloaded-path map, and the operations that move extension records
  between them.

  The service runs on one thread and mutates its members in place; here every operation
  takes the service state and returns the new one. What an operation does to its
  collaborators is kept in the state as well, as lists that only grow: the notifications
  sent through \<^verbatim>\<open>NotificationService\<close>, the tasks posted to other threads, the
  \<^verbatim>\<open>CrxInstaller\<close> objects started, the lines written with \<^verbatim>\<open>LOG(WARNING)\<close> or
  \<^verbatim>\<open>NOTREACHED()\<close>, and the messages given to \<^verbatim>\<open>ExtensionErrorReporter\<close>.
  A failed \<^verbatim>\<open>CHECK\<close> and a null dereference end the process: operations that can
  reach one return a sum, \<open>Inl\<close> the error. \<^verbatim>\<open>NOTREACHED()\<close> is an assertion of
  debug builds only; the code after it (a \<^verbatim>\<open>return\<close>, a \<^verbatim>\<open>break\<close>) is what a
  release build runs, and the model records the assertion as a diagnostic and goes on
  as the code does.

  Not modelled are the calls into other objects that post nothing and notify nobody:
  the URL overrides registered with \<^verbatim>\<open>ExtensionDOMUI\<close>, the crash reporter's list of
  active extensions, and the event routers started on a first load.
\<close>

type_synonym FilePath = string
type_synonym GURL = string

text \<open>
  Class \<^verbatim>\<open>Version\<close> is declared outside the sources. A version is carried as its
  string form (what \<^verbatim>\<open>VersionString()\<close> prints); how two versions compare and which
  strings parse to a version are parameters of the model (record \<open>Env\<close> below).
\<close>
type_synonym Version = string
type_synonym Manifest = "(string \<times> string) list"

text \<open>
  Modelled from the spec: the enumeration \<^verbatim>\<open>Extension::Location\<close> is declared outside the
  sources, which name \<^verbatim>\<open>LOAD\<close>, \<^verbatim>\<open>EXTERNAL_PREF\<close>, \<^verbatim>\<open>EXTERNAL_REGISTRY\<close> and
  \<^verbatim>\<open>COMPONENT\<close>. The spec lists five install locations: user-loaded-unpacked,
  externally-registered-via-preferences, externally-registered-via-platform-registry,
  packaged-component and standard-install (\<open>INTERNAL\<close> here).
\<close>
datatype Location = LOAD | EXTERNAL_PREF | EXTERNAL_REGISTRY | COMPONENT | INTERNAL

text \<open>
  Modelled from the spec: \<^verbatim>\<open>Extension::IsExternalLocation\<close> is declared outside the
  sources; the external locations are the two externally-registered ones.
\<close>
definition IsExternalLocation :: "Location \<Rightarrow> bool" where
  "IsExternalLocation l = (l = EXTERNAL_PREF \<or> l = EXTERNAL_REGISTRY)"

text \<open>
  Modelled from the spec: the enumeration \<^verbatim>\<open>Extension::State\<close> is declared outside the
  sources, which name \<^verbatim>\<open>ENABLED\<close> and \<^verbatim>\<open>DISABLED\<close> and have a \<^verbatim>\<open>default\<close> branch for
  every other value ("any other stored state" in the spec): \<open>OTHER_STATE\<close> here.
\<close>
datatype State = DISABLED | ENABLED | OTHER_STATE

text \<open>
  An \<^verbatim>\<open>Extension\<close> object. The lists of the service hold pointers and
  \<^verbatim>\<open>std::find\<close> compares pointers, so a record carries the address of its object
  (\<open>addr\<close>); the other fields are what the accessors of the class return.
\<close>
record Extension =
  addr :: nat
  ext_id :: string
  version :: Version
  path :: FilePath
  location :: Location
  IsTheme :: bool
  url :: GURL
  api_permissions :: "string list"
  HasUnlimitedStoragePermission :: bool
  default_locale :: string
  manifest_value :: Manifest
  being_upgraded :: bool

record PendingExtensionInfo =
  update_url :: GURL
  pending_version :: Version
  is_theme :: bool
  install_silently :: bool

record ExtensionInfo =
  extension_manifest :: "Manifest option"
  extension_id :: string
  extension_path :: FilePath
  extension_location :: Location

subsection \<open>The preference store\<close>

text \<open>
  Modelled from the spec: class \<^verbatim>\<open>ExtensionPrefs\<close> is declared outside the sources. The
  spec describes it as the store that "persists/retrieves per-identifier enable state,
  install metadata, blacklist set, incognito-access flag, last-ping timestamp, and
  permission-escalation flags". The fields below are the ones the modelled operations
  read or write.
\<close>
record ExtensionPrefs =
  pref_state :: "string \<rightharpoonup> State"
  pref_escalated :: "string \<rightharpoonup> bool"
  pref_installed :: "string \<rightharpoonup> ExtensionInfo"
  pref_blacklist :: "string set"
  pref_uninstalled :: "(string \<times> Location \<times> bool) list"

text \<open>
  Modelled from the spec: \<^verbatim>\<open>ExtensionPrefs::SetExtensionState\<close> persists the enable state
  of the extension's identifier.
\<close>
definition Prefs_SetExtensionState :: "Extension \<Rightarrow> State \<Rightarrow> ExtensionPrefs \<Rightarrow> ExtensionPrefs" where
  "Prefs_SetExtensionState extension st p = p\<lparr>pref_state := (pref_state p)(ext_id extension \<mapsto> st)\<rparr>"

text \<open>
  Modelled from the spec: \<^verbatim>\<open>ExtensionPrefs::GetExtensionState\<close> retrieves the persisted
  enable state; "enabled" is the "default for first install", when nothing is stored.
\<close>
definition Prefs_GetExtensionState :: "string \<Rightarrow> ExtensionPrefs \<Rightarrow> State" where
  "Prefs_GetExtensionState eid p = (case pref_state p eid of None \<Rightarrow> ENABLED | Some st \<Rightarrow> st)"

text \<open>
  Modelled from the spec: \<^verbatim>\<open>ExtensionPrefs::SetDidExtensionEscalatePermissions\<close> persists
  the "permissions escalated" flag of the extension's identifier.
\<close>
definition Prefs_SetDidExtensionEscalatePermissions ::
    "Extension \<Rightarrow> bool \<Rightarrow> ExtensionPrefs \<Rightarrow> ExtensionPrefs" where
  "Prefs_SetDidExtensionEscalatePermissions extension b p =
     p\<lparr>pref_escalated := (pref_escalated p)(ext_id extension \<mapsto> b)\<rparr>"

text \<open>
  Modelled from the spec: \<^verbatim>\<open>ExtensionPrefs::OnExtensionInstalled\<close> "persists install
  metadata": the manifest, identifier, path and location of the installed extension.
\<close>
definition Prefs_OnExtensionInstalled :: "Extension \<Rightarrow> ExtensionPrefs \<Rightarrow> ExtensionPrefs" where
  "Prefs_OnExtensionInstalled extension p =
     p\<lparr>pref_installed := (pref_installed p)(ext_id extension \<mapsto>
         \<lparr>extension_manifest = Some (manifest_value extension),
          extension_id = ext_id extension,
          extension_path = path extension,
          extension_location = location extension\<rparr>)\<rparr>"

text \<open>
  Modelled from the spec: \<^verbatim>\<open>ExtensionPrefs::UpdateManifest\<close> rewrites the persisted
  manifest of an installed extension.
\<close>
definition Prefs_UpdateManifest :: "Extension \<Rightarrow> ExtensionPrefs \<Rightarrow> ExtensionPrefs" where
  "Prefs_UpdateManifest extension p =
     (case pref_installed p (ext_id extension) of
        None \<Rightarrow> p
      | Some info \<Rightarrow>
          p\<lparr>pref_installed := (pref_installed p)(ext_id extension \<mapsto>
              info\<lparr>extension_manifest := Some (manifest_value extension)\<rparr>)\<rparr>)"

text \<open>
  Modelled from the spec: \<^verbatim>\<open>ExtensionPrefs::GetInstalledExtensionInfo\<close> retrieves the
  install metadata persisted for an identifier, if any.
\<close>
definition Prefs_GetInstalledExtensionInfo :: "string \<Rightarrow> ExtensionPrefs \<Rightarrow> ExtensionInfo option" where
  "Prefs_GetInstalledExtensionInfo eid p = pref_installed p eid"

text \<open>
  Modelled from the spec: \<^verbatim>\<open>ExtensionPrefs::OnExtensionUninstalled\<close> "persists the
  uninstall (with an external flag distinguishing host-application-initiated removal
  from the user's own action)".
\<close>
definition Prefs_OnExtensionUninstalled ::
    "string \<Rightarrow> Location \<Rightarrow> bool \<Rightarrow> ExtensionPrefs \<Rightarrow> ExtensionPrefs" where
  "Prefs_OnExtensionUninstalled eid l external_uninstall p =
     p\<lparr>pref_uninstalled := pref_uninstalled p @ [(eid, l, external_uninstall)]\<rparr>"

text \<open>
  Modelled from the spec: \<^verbatim>\<open>ExtensionPrefs::UpdateBlacklist\<close> "persists the blacklist".
\<close>
definition Prefs_UpdateBlacklist :: "string set \<Rightarrow> ExtensionPrefs \<Rightarrow> ExtensionPrefs" where
  "Prefs_UpdateBlacklist blacklist_set p = p\<lparr>pref_blacklist := blacklist_set\<rparr>"

subsection \<open>Collaborators and effects\<close>

text \<open>
  Functions the service calls that are declared outside the sources, taken as
  parameters: \<^verbatim>\<open>Version::CompareTo\<close>, \<^verbatim>\<open>Version::GetVersionFromString\<close> (\<open>None\<close> for
  the null pointer), \<^verbatim>\<open>Extension::IsPrivilegeIncrease\<close>, \<^verbatim>\<open>Extension::IdIsValid\<close>,
  \<^verbatim>\<open>Extension::InitFromValue\<close> on a new object for a path (\<open>Inl\<close> the error string),
  \<^verbatim>\<open>extension_file_util::LoadExtension\<close> (\<open>Inl\<close> the error string),
  \<^verbatim>\<open>file_util::AbsolutePath\<close>, the process manager's background host of an extension
  (\<open>None\<close> when there is none), the cookie \<^verbatim>\<open>DevToolsManager::DetachClientHost\<close> returns
  for a host, and the constant \<^verbatim>\<open>errors::kManifestUnreadable\<close>.
\<close>
record Env =
  CompareTo :: "Version \<Rightarrow> Version \<Rightarrow> int"
  GetVersionFromString :: "string \<Rightarrow> Version option"
  IsPrivilegeIncrease :: "Extension \<Rightarrow> Extension \<Rightarrow> bool"
  IdIsValid :: "string \<Rightarrow> bool"
  InitFromValue :: "FilePath \<Rightarrow> Manifest \<Rightarrow> bool \<Rightarrow> string + Extension"
  LoadExtension_from_disk :: "FilePath \<Rightarrow> string + Extension"
  AbsolutePath :: "FilePath \<Rightarrow> FilePath"
  GetBackgroundHostForExtension :: "Extension \<Rightarrow> nat option"
  DetachClientHost :: "nat \<Rightarrow> int"
  kManifestUnreadable :: string

datatype NotificationType =
    EXTENSION_LOADED
  | EXTENSION_UNLOADED
  | EXTENSION_UNLOADED_DISABLED
  | EXTENSION_UPDATE_DISABLED
  | EXTENSION_INSTALLED
  | THEME_INSTALLED
  | EXTENSION_OVERINSTALL_ERROR
  | EXTENSION_INSTALL_ERROR

text \<open>The details of a notification: the extension as it is when the notification is
  sent, or an error string.\<close>
datatype Details = ExtensionDetails Extension | StringDetails string

type_synonym Notification = "NotificationType \<times> Details"

text \<open>Work handed to another thread with \<^verbatim>\<open>ChromeThread::PostTask\<close>, and the data
  deleter started by \<^verbatim>\<open>ClearExtensionData\<close>. The request context is told of a new
  extension by its identifier, path, default locale and permissions, and of an unloaded
  one by its identifier; the database tracker is given the extension's URL, whose
  origin gets the unlimited quota.\<close>
datatype Task =
    Task_DeleteFileHelper FilePath bool
  | Task_UninstallExtension string FilePath
  | Task_LoadSingleExtension FilePath
  | Task_CheckExternalUninstall string Location
  | Task_StartDeleting GURL
  | Task_OnNewExtensions string FilePath string "string list"
  | Task_SetOriginQuotaInMemory GURL
  | Task_OnUnloadedExtension string

text \<open>What the service asks of its \<^verbatim>\<open>Profile\<close>: whether it is off the record, and
  whether it has a request context.\<close>
record Profile =
  IsOffTheRecord :: bool
  has_request_context :: bool

text \<open>A \<^verbatim>\<open>CrxInstaller\<close> as the service leaves it: whether it was given a client (an
  install UI), the setters called on it in order, and the file \<^verbatim>\<open>InstallCrx\<close> was
  called with.\<close>
datatype InstallerSetter =
    set_allow_privilege_increase bool
  | set_expected_id string
  | set_delete_source bool
  | set_force_web_origin_to_download_url bool
  | set_original_url GURL
  | set_install_source Location

record CrxInstaller =
  installer_directory :: FilePath
  installer_has_client :: bool
  installer_setters :: "InstallerSetter list"
  InstallCrx :: FilePath

datatype Diagnostic = LOG_WARNING string | NOTREACHED string

datatype Error = CHECK_failed | Null_dereference

subsection \<open>The service\<close>

text \<open>The members of \<^verbatim>\<open>ExtensionsService\<close>, named as in the class without the
  trailing underscore, followed by the effects on its collaborators.\<close>
record ExtensionsService =
  extensions :: "Extension list"
  disabled_extensions :: "Extension list"
  pending_extensions :: "string \<rightharpoonup> PendingExtensionInfo"
  unloaded_extension_paths :: "string \<rightharpoonup> FilePath"
  orphaned_dev_tools :: "string \<rightharpoonup> int"
  extension_prefs :: ExtensionPrefs
  install_directory :: FilePath
  extensions_enabled :: bool
  profile :: "Profile option"
  notifications :: "Notification list"
  posted_tasks :: "Task list"
  installers :: "CrxInstaller list"
  diagnostics :: "Diagnostic list"
  error_reports :: "(string \<times> bool) list"

section \<open>Operations\<close>

text \<open>\<^verbatim>\<open>StringToLowerASCII\<close> (base/string_util.h): the letters A to Z become a to z.\<close>
definition ToLowerASCII :: "char \<Rightarrow> char" where
  "ToLowerASCII c =
     (let n = (of_char c :: nat) in if 65 \<le> n \<and> n \<le> 90 then char_of (n + 32) else c)"

definition StringToLowerASCII :: "string \<Rightarrow> string" where
  "StringToLowerASCII s = map ToLowerASCII s"

text \<open>The loop \<^verbatim>\<open>for (iter = list.begin(); ...) if ((*iter)->id() == lowercase_id) return *iter;\<close>\<close>
fun first_with_id :: "string \<Rightarrow> Extension list \<Rightarrow> Extension option" where
  "first_with_id lowercase_id [] = None"
| "first_with_id lowercase_id (e # es) =
     (if ext_id e = lowercase_id then Some e else first_with_id lowercase_id es)"

definition GetExtensionByIdInternal ::
    "string \<Rightarrow> bool \<Rightarrow> bool \<Rightarrow> ExtensionsService \<Rightarrow> Extension option" where
  "GetExtensionByIdInternal eid include_enabled include_disabled s =
     (let lowercase_id = StringToLowerASCII eid in
      case (if include_enabled then first_with_id lowercase_id (extensions s) else None) of
        Some e \<Rightarrow> Some e
      | None \<Rightarrow>
          (if include_disabled then first_with_id lowercase_id (disabled_extensions s)
           else None))"

text \<open>
  Modelled from the spec: the accessor \<^verbatim>\<open>GetExtensionById(id, include_disabled)\<close> is
  declared in the header, outside the sources. It looks an identifier up among the loaded
  (enabled) extensions, and among the disabled ones too when asked.
\<close>
definition GetExtensionById :: "string \<Rightarrow> bool \<Rightarrow> ExtensionsService \<Rightarrow> Extension option" where
  "GetExtensionById eid include_disabled s = GetExtensionByIdInternal eid True include_disabled s"

text \<open>\<^verbatim>\<open>std::find(list.begin(), list.end(), extension)\<close>: the first cell holding the pointer.\<close>
fun find_ptr :: "nat \<Rightarrow> Extension list \<Rightarrow> Extension option" where
  "find_ptr p [] = None"
| "find_ptr p (e # es) = (if addr e = p then Some e else find_ptr p es)"

text \<open>\<^verbatim>\<open>list.erase(std::find(list.begin(), list.end(), extension))\<close>. Every call site
  erases a pointer that the lookup just before it found in one of the two lists; the
  list is returned as it is when the pointer is not in it.\<close>
fun erase_ptr :: "nat \<Rightarrow> Extension list \<Rightarrow> Extension list" where
  "erase_ptr p [] = []"
| "erase_ptr p (e # es) = (if addr e = p then es else e # erase_ptr p es)"

text \<open>\<^verbatim>\<open>extension->set_being_upgraded(b)\<close> on the object at an address, wherever a list
  holds it.\<close>
definition set_flag_in :: "nat \<Rightarrow> bool \<Rightarrow> Extension list \<Rightarrow> Extension list" where
  "set_flag_in p b es = map (\<lambda>e. if addr e = p then e\<lparr>being_upgraded := b\<rparr> else e) es"

definition set_being_upgraded :: "nat \<Rightarrow> bool \<Rightarrow> ExtensionsService \<Rightarrow> ExtensionsService" where
  "set_being_upgraded p b s =
     s\<lparr>extensions := set_flag_in p b (extensions s),
       disabled_extensions := set_flag_in p b (disabled_extensions s)\<rparr>"

definition Notify :: "NotificationType \<Rightarrow> Details \<Rightarrow> ExtensionsService \<Rightarrow> ExtensionsService" where
  "Notify t d s = s\<lparr>notifications := notifications s @ [(t, d)]\<rparr>"

definition PostTask :: "Task \<Rightarrow> ExtensionsService \<Rightarrow> ExtensionsService" where
  "PostTask t s = s\<lparr>posted_tasks := posted_tasks s @ [t]\<rparr>"

definition Log :: "Diagnostic \<Rightarrow> ExtensionsService \<Rightarrow> ExtensionsService" where
  "Log d s = s\<lparr>diagnostics := diagnostics s @ [d]\<rparr>"

definition NotifyExtensionLoaded :: "Extension \<Rightarrow> ExtensionsService \<Rightarrow> ExtensionsService" where
  "NotifyExtensionLoaded extension s =
     (let s1 = (case profile s of
                  None \<Rightarrow> s
                | Some p \<Rightarrow>
                    if IsOffTheRecord p then s
                    else
                      (let s2 = (if has_request_context p
                                 then PostTask (Task_OnNewExtensions (ext_id extension)
                                        (path extension) (default_locale extension)
                                        (api_permissions extension)) s
                                 else s)
                       in if HasUnlimitedStoragePermission extension
                          then PostTask (Task_SetOriginQuotaInMemory (url extension)) s2
                          else s2))
      in Notify EXTENSION_LOADED (ExtensionDetails extension) s1)"

definition NotifyExtensionUnloaded :: "Extension \<Rightarrow> ExtensionsService \<Rightarrow> ExtensionsService" where
  "NotifyExtensionUnloaded extension s =
     (let s1 = Notify EXTENSION_UNLOADED (ExtensionDetails extension) s in
      case profile s1 of
        None \<Rightarrow> s1
      | Some p \<Rightarrow>
          if \<not> IsOffTheRecord p \<and> has_request_context p
          then PostTask (Task_OnUnloadedExtension (ext_id extension)) s1
          else s1)"

definition ReportExtensionLoadError ::
    "FilePath \<Rightarrow> string \<Rightarrow> NotificationType \<Rightarrow> bool \<Rightarrow> ExtensionsService \<Rightarrow> ExtensionsService" where
  "ReportExtensionLoadError file_path error t be_noisy s =
     (let s1 = Notify t (StringDetails error) s;
          message = ''Could not load extension from '' @ [CHR 0x27] @ file_path
                    @ [CHR 0x27] @ ''. '' @ error
      in s1\<lparr>error_reports := error_reports s1 @ [(message, be_noisy)]\<rparr>)"

definition InstallExtension :: "FilePath \<Rightarrow> ExtensionsService \<Rightarrow> ExtensionsService" where
  "InstallExtension file_path s =
     s\<lparr>installers := installers s @
        [\<lparr>installer_directory = install_directory s,
          installer_has_client = False,
          installer_setters = [set_allow_privilege_increase True],
          InstallCrx = file_path\<rparr>]\<rparr>"

definition UpdateExtension :: "string \<Rightarrow> FilePath \<Rightarrow> GURL \<Rightarrow> ExtensionsService \<Rightarrow> ExtensionsService" where
  "UpdateExtension eid file_path download_url s =
     (let it = pending_extensions s eid in
      if it = None \<and> GetExtensionByIdInternal eid True True s = None then
        PostTask (Task_DeleteFileHelper file_path False)
          (Log (LOG_WARNING (''Will not update extension '' @ eid
                  @ '' because it is not installed or pending'')) s)
      else
        s\<lparr>installers := installers s @
           [\<lparr>installer_directory = install_directory s,
             installer_has_client =
               (case it of None \<Rightarrow> False | Some info \<Rightarrow> \<not> install_silently info),
             installer_setters =
               [set_expected_id eid, set_delete_source True,
                set_force_web_origin_to_download_url True, set_original_url download_url],
             InstallCrx = file_path\<rparr>]\<rparr>)"

definition AddPendingExtensionInternal ::
    "string \<Rightarrow> GURL \<Rightarrow> Version \<Rightarrow> bool \<Rightarrow> bool \<Rightarrow> ExtensionsService \<Rightarrow> ExtensionsService" where
  "AddPendingExtensionInternal eid u v theme silently s =
     s\<lparr>pending_extensions := (pending_extensions s)(eid \<mapsto>
         \<lparr>update_url = u, pending_version = v, is_theme = theme, install_silently = silently\<rparr>)\<rparr>"

definition AddPendingExtension ::
    "string \<Rightarrow> GURL \<Rightarrow> Version \<Rightarrow> bool \<Rightarrow> bool \<Rightarrow> ExtensionsService \<Rightarrow> ExtensionsService" where
  "AddPendingExtension eid u v theme silently s =
     (if GetExtensionByIdInternal eid True True s \<noteq> None then s
      else AddPendingExtensionInternal eid u v theme silently s)"

definition UnloadExtension :: "string \<Rightarrow> ExtensionsService \<Rightarrow> Error + ExtensionsService" where
  "UnloadExtension eid s =
     (case GetExtensionByIdInternal eid True True s of
        None \<Rightarrow> Inl CHECK_failed
      | Some extension \<Rightarrow>
          (let s1 = s\<lparr>unloaded_extension_paths :=
                        (unloaded_extension_paths s)(ext_id extension \<mapsto> path extension)\<rparr>
           in if find_ptr (addr extension) (disabled_extensions s1) \<noteq> None then
                Inr (Notify EXTENSION_UNLOADED_DISABLED (ExtensionDetails extension)
                      (s1\<lparr>disabled_extensions :=
                            erase_ptr (addr extension) (disabled_extensions s1)\<rparr>))
              else
                Inr (NotifyExtensionUnloaded extension
                      (s1\<lparr>extensions := erase_ptr (addr extension) (extensions s1)\<rparr>))))"

definition UnloadAllExtensions :: "ExtensionsService \<Rightarrow> ExtensionsService" where
  "UnloadAllExtensions s = s\<lparr>extensions := []\<rparr>"

definition EnableExtension :: "string \<Rightarrow> ExtensionsService \<Rightarrow> ExtensionsService" where
  "EnableExtension eid s =
     (case GetExtensionByIdInternal eid False True s of
        None \<Rightarrow> Log (NOTREACHED ''Trying to enable an extension that isn't disabled.'') s
      | Some extension \<Rightarrow>
          (let s1 = s\<lparr>extension_prefs :=
                        Prefs_SetExtensionState extension ENABLED (extension_prefs s)\<rparr>;
               s2 = s1\<lparr>extensions := extensions s1 @ [extension]\<rparr>;
               s3 = s2\<lparr>disabled_extensions :=
                         erase_ptr (addr extension) (disabled_extensions s2)\<rparr>
           in NotifyExtensionLoaded extension s3))"

definition DisableExtension :: "string \<Rightarrow> ExtensionsService \<Rightarrow> ExtensionsService" where
  "DisableExtension eid s =
     (case GetExtensionByIdInternal eid True False s of
        None \<Rightarrow> s
      | Some extension \<Rightarrow>
          (let s1 = s\<lparr>extension_prefs :=
                        Prefs_SetExtensionState extension DISABLED (extension_prefs s)\<rparr>;
               s2 = s1\<lparr>disabled_extensions := disabled_extensions s1 @ [extension]\<rparr>;
               s3 = s2\<lparr>extensions := erase_ptr (addr extension) (extensions s2)\<rparr>
           in NotifyExtensionUnloaded extension s3))"

definition LoadExtension :: "FilePath \<Rightarrow> ExtensionsService \<Rightarrow> ExtensionsService" where
  "LoadExtension file_path s = PostTask (Task_LoadSingleExtension file_path) s"

definition ClearExtensionData :: "GURL \<Rightarrow> ExtensionsService \<Rightarrow> ExtensionsService" where
  "ClearExtensionData extension_url s = PostTask (Task_StartDeleting extension_url) s"

text \<open>The \<^verbatim>\<open>switch\<close> of \<^verbatim>\<open>OnExtensionLoaded\<close> over the persisted state of the
  identifier: the record goes to the enabled list, to the disabled list, or to neither.\<close>
definition OnExtensionLoaded_place :: "Extension \<Rightarrow> ExtensionsService \<Rightarrow> ExtensionsService" where
  "OnExtensionLoaded_place extension s =
     (case Prefs_GetExtensionState (ext_id extension) (extension_prefs s) of
        ENABLED \<Rightarrow>
          NotifyExtensionLoaded extension (s\<lparr>extensions := extensions s @ [extension]\<rparr>)
      | DISABLED \<Rightarrow>
          Notify EXTENSION_UPDATE_DISABLED (ExtensionDetails extension)
            (s\<lparr>disabled_extensions := disabled_extensions s @ [extension]\<rparr>)
      | OTHER_STATE \<Rightarrow> Log (NOTREACHED []) s)"

definition OnExtensionLoaded ::
    "Env \<Rightarrow> Extension \<Rightarrow> bool \<Rightarrow> ExtensionsService \<Rightarrow> Error + ExtensionsService" where
  "OnExtensionLoaded env extension allow_privilege_increase s =
     (let s0 = s\<lparr>unloaded_extension_paths :=
                   (unloaded_extension_paths s)(ext_id extension := None)\<rparr>
      in if extensions_enabled s0 \<or> IsTheme extension \<or> location extension = LOAD
            \<or> IsExternalLocation (location extension)
         then
           (case GetExtensionByIdInternal (ext_id extension) True True s0 of
              Some old \<Rightarrow>
                if CompareTo env (version extension) (version old) > 0 then
                  (let allow_silent_upgrade =
                         (allow_privilege_increase \<or> \<not> IsPrivilegeIncrease env old extension);
                       s1 = (if allow_silent_upgrade
                             then set_being_upgraded (addr old) True s0 else s0);
                       extension1 = (if allow_silent_upgrade
                                     then extension\<lparr>being_upgraded := True\<rparr> else extension)
                   in case UnloadExtension (ext_id old) s1 of
                        Inl err \<Rightarrow> Inl err
                      | Inr s2 \<Rightarrow>
                          (let s3 = (if \<not> allow_silent_upgrade then
                                       s2\<lparr>extension_prefs :=
                                            Prefs_SetDidExtensionEscalatePermissions extension1 True
                                              (Prefs_SetExtensionState extension1 DISABLED
                                                 (extension_prefs s2))\<rparr>
                                     else s2)
                           in Inr (set_being_upgraded (addr extension) False
                                     (OnExtensionLoaded_place extension1 s3))))
                else
                  (let error_message = ''Duplicate extension load attempt: '' @ ext_id extension
                   in Inr (ReportExtensionLoadError (path extension) error_message
                             EXTENSION_OVERINSTALL_ERROR False
                             (Log (LOG_WARNING error_message) s0)))
            | None \<Rightarrow>
                Inr (set_being_upgraded (addr extension) False
                       (OnExtensionLoaded_place extension s0)))
         else Inr s0)"

definition bool_text :: "bool \<Rightarrow> string" where
  "bool_text b = (if b then ''1'' else ''0'')"

definition OnExtensionInstalled ::
    "Env \<Rightarrow> Extension \<Rightarrow> bool \<Rightarrow> ExtensionsService \<Rightarrow> Error + ExtensionsService" where
  "OnExtensionInstalled env extension allow_privilege_increase s =
     (let it = pending_extensions s (ext_id extension) in
      if (case it of None \<Rightarrow> False | Some info \<Rightarrow> is_theme info \<noteq> IsTheme extension) then
        Inr (PostTask (Task_DeleteFileHelper (path extension) True)
              (Log (LOG_WARNING (''Not installing pending extension '' @ ext_id extension
                      @ '' with is_theme = '' @ bool_text (IsTheme extension)
                      @ ''; expected is_theme = ''
                      @ (case it of None \<Rightarrow> [] | Some info \<Rightarrow> bool_text (is_theme info)))) s))
      else
        (let s1 = s\<lparr>extension_prefs := Prefs_OnExtensionInstalled extension (extension_prefs s)\<rparr>;
             s2 = (if IsTheme extension
                   then Notify THEME_INSTALLED (ExtensionDetails extension) s1
                   else Notify EXTENSION_INSTALLED (ExtensionDetails extension) s1)
         in case OnExtensionLoaded env extension allow_privilege_increase s2 of
              Inl err \<Rightarrow> Inl err
            | Inr s3 \<Rightarrow>
                Inr (if it \<noteq> None
                     then s3\<lparr>pending_extensions :=
                               (pending_extensions s3)(ext_id extension := None)\<rparr>
                     else s3)))"

definition LoadInstalledExtension ::
    "Env \<Rightarrow> ExtensionInfo \<Rightarrow> bool \<Rightarrow> ExtensionsService \<Rightarrow> Error + ExtensionsService" where
  "LoadInstalledExtension env info write_to_prefs s =
     (case (case extension_manifest info of
              Some manifest \<Rightarrow>
                InitFromValue env (extension_path info) manifest (extension_location info \<noteq> LOAD)
            | None \<Rightarrow> Inl (kManifestUnreadable env)) of
        Inl error \<Rightarrow>
          Inr (ReportExtensionLoadError (extension_path info) error EXTENSION_INSTALL_ERROR False s)
      | Inr tmp \<Rightarrow>
          (let extension = tmp\<lparr>location := extension_location info\<rparr>;
               s1 = (if write_to_prefs
                     then s\<lparr>extension_prefs := Prefs_UpdateManifest extension (extension_prefs s)\<rparr>
                     else s)
           in case OnExtensionLoaded env extension True s1 of
                Inl err \<Rightarrow> Inl err
              | Inr s2 \<Rightarrow>
                  Inr (if extension_location info = EXTERNAL_PREF
                          \<or> extension_location info = EXTERNAL_REGISTRY
                       then PostTask (Task_CheckExternalUninstall (extension_id info)
                                        (extension_location info)) s2
                       else s2)))"

definition ReloadExtension :: "Env \<Rightarrow> string \<Rightarrow> ExtensionsService \<Rightarrow> Error + ExtensionsService" where
  "ReloadExtension env eid s =
     (case (case GetExtensionById eid False s of
              Some current_extension \<Rightarrow>
                (let s1 = (case GetBackgroundHostForExtension env current_extension of
                             None \<Rightarrow> s
                           | Some host \<Rightarrow>
                               (let devtools_cookie = DetachClientHost env host in
                                if devtools_cookie \<ge> 0
                                then s\<lparr>orphaned_dev_tools :=
                                         (orphaned_dev_tools s)(eid \<mapsto> devtools_cookie)\<rparr>
                                else s))
                 in case UnloadExtension eid s1 of
                      Inl err \<Rightarrow> Inl err
                    | Inr s2 \<Rightarrow> Inr (path current_extension, s2))
            | None \<Rightarrow>
                (case unloaded_extension_paths s eid of
                   Some p \<Rightarrow> Inr (p, s)
                 | None \<Rightarrow> Inr ([], s\<lparr>unloaded_extension_paths :=
                                        (unloaded_extension_paths s)(eid \<mapsto> [])\<rparr>))) of
        Inl err \<Rightarrow> Inl err
      | Inr (reload_path, s3) \<Rightarrow>
          (case Prefs_GetInstalledExtensionInfo eid (extension_prefs s3) of
             Some installed_extension \<Rightarrow>
               if extension_manifest installed_extension \<noteq> None
               then LoadInstalledExtension env installed_extension False s3
               else if reload_path = [] then Inl CHECK_failed
               else Inr (LoadExtension reload_path s3)
           | None \<Rightarrow>
               if reload_path = [] then Inl CHECK_failed
               else Inr (LoadExtension reload_path s3)))"

definition UninstallExtension :: "string \<Rightarrow> bool \<Rightarrow> ExtensionsService \<Rightarrow> Error + ExtensionsService" where
  "UninstallExtension eid external_uninstall s =
     (case GetExtensionByIdInternal eid True True s of
        None \<Rightarrow> Inl Null_dereference
      | Some extension \<Rightarrow>
          (let extension_url = url extension;
               loc = location extension
           in case UnloadExtension eid s of
                Inl err \<Rightarrow> Inl err
              | Inr s1 \<Rightarrow>
                  (let s2 = s1\<lparr>extension_prefs :=
                                Prefs_OnExtensionUninstalled eid loc external_uninstall
                                  (extension_prefs s1)\<rparr>;
                       s3 = (if loc \<noteq> LOAD
                             then PostTask (Task_UninstallExtension eid (install_directory s2)) s2
                             else s2)
                   in Inr (ClearExtensionData extension_url s3))))"

text \<open>The second loop of \<^verbatim>\<open>UpdateExtensionBlacklist\<close>:
  \<^verbatim>\<open>for (i = 0; i < to_be_removed.size(); ++i) UnloadExtension(to_be_removed[i]);\<close>\<close>
fun unload_each :: "string list \<Rightarrow> ExtensionsService \<Rightarrow> Error + ExtensionsService" where
  "unload_each [] s = Inr s"
| "unload_each (eid # eids) s =
     (case UnloadExtension eid s of Inl err \<Rightarrow> Inl err | Inr s1 \<Rightarrow> unload_each eids s1)"

definition UpdateExtensionBlacklist ::
    "Env \<Rightarrow> string list \<Rightarrow> ExtensionsService \<Rightarrow> Error + ExtensionsService" where
  "UpdateExtensionBlacklist env blacklist s =
     (let blacklist_set = set (filter (IdIsValid env) blacklist);
          s1 = s\<lparr>extension_prefs := Prefs_UpdateBlacklist blacklist_set (extension_prefs s)\<rparr>;
          to_be_removed = map ext_id (filter (\<lambda>e. ext_id e \<in> blacklist_set) (extensions s1))
      in unload_each to_be_removed s1)"

definition OnExternalExtensionFound ::
    "Env \<Rightarrow> string \<Rightarrow> string \<Rightarrow> FilePath \<Rightarrow> Location \<Rightarrow> ExtensionsService
      \<Rightarrow> Error + ExtensionsService" where
  "OnExternalExtensionFound env eid version_string crx_path loc s =
     (let existing = GetExtensionById eid True s;
          other = GetVersionFromString env version_string;
          install =
            s\<lparr>installers := installers s @
               [\<lparr>installer_directory = install_directory s,
                 installer_has_client = False,
                 installer_setters =
                   [set_install_source loc, set_expected_id eid,
                    set_allow_privilege_increase True],
                 InstallCrx = crx_path\<rparr>]\<rparr>
      in case existing of
           None \<Rightarrow> Inr install
         | Some ex \<Rightarrow>
             (case other of
                None \<Rightarrow> Inl Null_dereference
              | Some other_version \<Rightarrow>
                  (let c = CompareTo env (version ex) other_version in
                   if c = - 1 then Inr install
                   else if c = 0 then Inr s
                   else if c = 1 then
                     Inr (Log (LOG_WARNING (''Found external version of extension '' @ eid
                            @ ''that is older than current version. Current version ''
                            @ ''is: '' @ version ex @ ''. New version ''
                            @ ''is: '' @ version_string @ ''. Keeping current version.'')) s)
                   else Inr install)))"

subsection \<open>The backend's single load, and the task it posts back\<close>

text \<open>What \<^verbatim>\<open>ExtensionsServiceBackend::LoadSingleExtension\<close> posts to the service's
  thread: a load error, or the loaded extension for \<^verbatim>\<open>OnExtensionInstalled\<close>.\<close>
datatype UITask =
    UI_ReportExtensionLoadError FilePath string NotificationType bool
  | UI_OnExtensionInstalled Extension bool

definition LoadSingleExtension :: "Env \<Rightarrow> FilePath \<Rightarrow> UITask" where
  "LoadSingleExtension env path_in =
     (let file_path = AbsolutePath env path_in in
      case LoadExtension_from_disk env file_path of
        Inl error \<Rightarrow>
          UI_ReportExtensionLoadError file_path error EXTENSION_INSTALL_ERROR True
      | Inr extension \<Rightarrow> UI_OnExtensionInstalled (extension\<lparr>location := LOAD\<rparr>) True)"

fun run_ui_task :: "Env \<Rightarrow> UITask \<Rightarrow> ExtensionsService \<Rightarrow> Error + ExtensionsService" where
  "run_ui_task env (UI_ReportExtensionLoadError p error t be_noisy) s =
     Inr (ReportExtensionLoadError p error t be_noisy s)"
| "run_ui_task env (UI_OnExtensionInstalled extension allow_privilege_increase) s =
     OnExtensionInstalled env extension allow_privilege_increase s"

section \<open>Well-formed registries and reachable states\<close>

text \<open>The records the service holds, the enabled ones first.\<close>
definition registered :: "ExtensionsService \<Rightarrow> Extension list" where
  "registered s = extensions s @ disabled_extensions s"

text \<open>Identifiers are lower-case (the spec: "stable lowercase identifier"). The lookup
  lower-cases the identifier it is asked for and compares it with the stored ones as
  they are.\<close>
definition lowercase_id :: "Extension \<Rightarrow> bool" where
  "lowercase_id e = (StringToLowerASCII (ext_id e) = ext_id e)"

text \<open>A well-formed registry: the two lists together hold no address twice and no
  identifier twice, and every identifier is lower-case.\<close>
definition registry_ok :: "ExtensionsService \<Rightarrow> bool" where
  "registry_ok s =
     (distinct (map addr (registered s)) \<and> distinct (map ext_id (registered s))
      \<and> list_all lowercase_id (registered s))"

text \<open>A newly allocated object: its address is not the address of a registered one.\<close>
definition fresh :: "Extension \<Rightarrow> ExtensionsService \<Rightarrow> bool" where
  "fresh e s = (addr e \<notin> addr ` set (registered s))"

text \<open>The condition of \<^verbatim>\<open>OnExtensionLoaded\<close> (lines 796 to 799) under which a loaded
  extension is looked at: extensions are enabled, or it is a theme, an unpacked
  extension, or an external one.\<close>
definition load_permitted :: "Extension \<Rightarrow> ExtensionsService \<Rightarrow> bool" where
  "load_permitted extension s =
     (extensions_enabled s \<or> IsTheme extension \<or> location extension = LOAD
      \<or> IsExternalLocation (location extension))"

text \<open>Every object \<^verbatim>\<open>InitFromValue\<close> initialises is new and has a lower-case
  identifier.\<close>
definition new_objects_ok :: "Env \<Rightarrow> ExtensionsService \<Rightarrow> bool" where
  "new_objects_ok env s =
     (\<forall>p m k e. InitFromValue env p m k = Inr e \<longrightarrow> fresh e s \<and> lowercase_id e)"

text \<open>
  The states of the service: the constructor leaves both lists empty (whatever the
  preferences and the command line say), and each operation of the class leads from a
  state to the next one when it returns. Extensions handed to the service are new
  objects with lower-case identifiers. The rule \<open>other_members\<close> stands for everything
  that changes members other than the two lists (the remaining methods of the class,
  and the collaborators that write the preference store).
\<close>
inductive reachable :: "ExtensionsService \<Rightarrow> bool" where
  constructed: "extensions s = [] \<Longrightarrow> disabled_extensions s = [] \<Longrightarrow> reachable s"
| other_members:
    "reachable s \<Longrightarrow> extensions s' = extensions s
       \<Longrightarrow> disabled_extensions s' = disabled_extensions s \<Longrightarrow> reachable s'"
| after_InstallExtension: "reachable s \<Longrightarrow> reachable (InstallExtension file_path s)"
| after_UpdateExtension: "reachable s \<Longrightarrow> reachable (UpdateExtension eid file_path download_url s)"
| after_AddPendingExtension:
    "reachable s \<Longrightarrow> reachable (AddPendingExtension eid u v theme silently s)"
| after_EnableExtension: "reachable s \<Longrightarrow> reachable (EnableExtension eid s)"
| after_DisableExtension: "reachable s \<Longrightarrow> reachable (DisableExtension eid s)"
| after_UnloadAllExtensions: "reachable s \<Longrightarrow> reachable (UnloadAllExtensions s)"
| after_ReportExtensionLoadError:
    "reachable s \<Longrightarrow> reachable (ReportExtensionLoadError file_path error t be_noisy s)"
| after_UnloadExtension: "reachable s \<Longrightarrow> UnloadExtension eid s = Inr s' \<Longrightarrow> reachable s'"
| after_UninstallExtension:
    "reachable s \<Longrightarrow> UninstallExtension eid external_uninstall s = Inr s' \<Longrightarrow> reachable s'"
| after_UpdateExtensionBlacklist:
    "reachable s \<Longrightarrow> UpdateExtensionBlacklist env blacklist s = Inr s' \<Longrightarrow> reachable s'"
| after_OnExternalExtensionFound:
    "reachable s \<Longrightarrow> OnExternalExtensionFound env eid version_string crx_path loc s = Inr s'
       \<Longrightarrow> reachable s'"
| after_OnExtensionLoaded:
    "reachable s \<Longrightarrow> fresh e s \<Longrightarrow> lowercase_id e
       \<Longrightarrow> OnExtensionLoaded env e allow s = Inr s' \<Longrightarrow> reachable s'"
| after_OnExtensionInstalled:
    "reachable s \<Longrightarrow> fresh e s \<Longrightarrow> lowercase_id e
       \<Longrightarrow> OnExtensionInstalled env e allow s = Inr s' \<Longrightarrow> reachable s'"
| after_LoadInstalledExtension:
    "reachable s \<Longrightarrow> new_objects_ok env s
       \<Longrightarrow> LoadInstalledExtension env info write_to_prefs s = Inr s' \<Longrightarrow> reachable s'"
| after_ReloadExtension:
    "reachable s \<Longrightarrow> new_objects_ok env s
       \<Longrightarrow> ReloadExtension env eid s = Inr s' \<Longrightarrow> reachable s'"

section \<open>Example states\<close>

text \<open>A comparison of version strings, character by character; it orders
  \<open>''1.0''\<close> before \<open>''2.0''\<close>.\<close>
fun example_CompareTo :: "Version \<Rightarrow> Version \<Rightarrow> int" where
  "example_CompareTo [] [] = 0"
| "example_CompareTo [] (y # ys) = - 1"
| "example_CompareTo (x # xs) [] = 1"
| "example_CompareTo (x # xs) (y # ys) =
     (if (of_char x :: nat) < of_char y then - 1
      else if (of_char y :: nat) < of_char x then 1
      else example_CompareTo xs ys)"

text \<open>An installed extension without permissions, at an address, with an identifier and
  a version.\<close>
definition example_extension :: "nat \<Rightarrow> string \<Rightarrow> Version \<Rightarrow> Extension" where
  "example_extension a i v =
     \<lparr>addr = a, ext_id = i, version = v, path = ''/ext/'' @ i, location = INTERNAL,
      IsTheme = False, url = ''chrome-extension://'' @ i, api_permissions = [],
      HasUnlimitedStoragePermission = False, default_locale = [],
      manifest_value = [], being_upgraded = False\<rparr>"

text \<open>Collaborators for the examples: a privilege increase is a permission the old
  version did not have; every identifier is valid; no manifest initialises; the disk holds
  one bundle, of extension \<open>''a''\<close>, at \<open>''/ext/a''\<close>.\<close>
definition example_env :: Env where
  "example_env =
     \<lparr>CompareTo = example_CompareTo,
      GetVersionFromString = Some,
      IsPrivilegeIncrease = (\<lambda>old new. \<not> set (api_permissions new) \<subseteq> set (api_permissions old)),
      IdIsValid = (\<lambda>i. True),
      InitFromValue = (\<lambda>p m require_key. Inl ''no manifest''),
      LoadExtension_from_disk =
        (\<lambda>p. if p = ''/ext/a'' then Inr (example_extension 7 ''a'' ''1.0'') else Inl ''no bundle''),
      AbsolutePath = (\<lambda>p. p),
      GetBackgroundHostForExtension = (\<lambda>e. None),
      DetachClientHost = (\<lambda>h. - 1),
      kManifestUnreadable = ''Manifest file is missing or unreadable.''\<rparr>"

definition example_prefs :: ExtensionPrefs where
  "example_prefs =
     \<lparr>pref_state = Map.empty, pref_escalated = Map.empty, pref_installed = Map.empty,
      pref_blacklist = {}, pref_uninstalled = []\<rparr>"

text \<open>The service as its constructor leaves it, with extensions enabled, for an
  ordinary profile.\<close>
definition example_service :: ExtensionsService where
  "example_service =
     \<lparr>extensions = [], disabled_extensions = [], pending_extensions = Map.empty,
      unloaded_extension_paths = Map.empty, orphaned_dev_tools = Map.empty,
      extension_prefs = example_prefs, install_directory = ''/profile/Extensions'',
      extensions_enabled = True,
      profile = Some \<lparr>IsOffTheRecord = False, has_request_context = True\<rparr>,
      notifications = [], posted_tasks = [], installers = [],
      diagnostics = [], error_reports = []\<rparr>"

text \<open>Extension \<open>''a''\<close> loaded unpacked, and a service started with extensions disabled
  that holds it.\<close>
definition unpacked_a :: Extension where
  "unpacked_a = (example_extension 1 ''a'' ''1.0'')\<lparr>location := LOAD\<rparr>"

definition extensions_disabled_service :: ExtensionsService where
  "extensions_disabled_service =
     example_service\<lparr>extensions_enabled := False, extensions := [unpacked_a]\<rparr>"

text \<open>A service that holds extension \<open>''bad1''\<close> in its disabled list.\<close>
definition disabled_bad1_service :: ExtensionsService where
  "disabled_bad1_service =
     example_service\<lparr>disabled_extensions := [example_extension 1 ''bad1'' ''1.0'']\<rparr>"

text \<open>A service that holds extension \<open>''a''\<close>, not a theme, and a pending entry for the
  same identifier that expects a theme.\<close>
definition pending_theme_service :: ExtensionsService where
  "pending_theme_service =
     example_service\<lparr>extensions := [example_extension 1 ''a'' ''1.0''],
       pending_extensions :=
         [''a'' \<mapsto> \<lparr>update_url = ''http://example/a.crx'', pending_version = ''1.0'',
                     is_theme = True, install_silently = False\<rparr>]\<rparr>"

section \<open>Auxiliary lemmas\<close>

subsection \<open>What the effects leave alone\<close>

lemma Notify_simps:
  "extensions (Notify t d s) = extensions s"
  "disabled_extensions (Notify t d s) = disabled_extensions s"
  "pending_extensions (Notify t d s) = pending_extensions s"
  "unloaded_extension_paths (Notify t d s) = unloaded_extension_paths s"
  "orphaned_dev_tools (Notify t d s) = orphaned_dev_tools s"
  "extension_prefs (Notify t d s) = extension_prefs s"
  "install_directory (Notify t d s) = install_directory s"
  "extensions_enabled (Notify t d s) = extensions_enabled s"
  "profile (Notify t d s) = profile s"
  "notifications (Notify t d s) = notifications s @ [(t, d)]"
  "posted_tasks (Notify t d s) = posted_tasks s"
  "installers (Notify t d s) = installers s"
  "diagnostics (Notify t d s) = diagnostics s"
  "error_reports (Notify t d s) = error_reports s"
  by (simp_all add: Notify_def)

lemma PostTask_simps:
  "extensions (PostTask k s) = extensions s"
  "disabled_extensions (PostTask k s) = disabled_extensions s"
  "pending_extensions (PostTask k s) = pending_extensions s"
  "unloaded_extension_paths (PostTask k s) = unloaded_extension_paths s"
  "orphaned_dev_tools (PostTask k s) = orphaned_dev_tools s"
  "extension_prefs (PostTask k s) = extension_prefs s"
  "install_directory (PostTask k s) = install_directory s"
  "extensions_enabled (PostTask k s) = extensions_enabled s"
  "profile (PostTask k s) = profile s"
  "notifications (PostTask k s) = notifications s"
  "posted_tasks (PostTask k s) = posted_tasks s @ [k]"
  "installers (PostTask k s) = installers s"
  "diagnostics (PostTask k s) = diagnostics s"
  "error_reports (PostTask k s) = error_reports s"
  by (simp_all add: PostTask_def)

lemma Log_simps:
  "extensions (Log d s) = extensions s"
  "disabled_extensions (Log d s) = disabled_extensions s"
  "pending_extensions (Log d s) = pending_extensions s"
  "unloaded_extension_paths (Log d s) = unloaded_extension_paths s"
  "orphaned_dev_tools (Log d s) = orphaned_dev_tools s"
  "extension_prefs (Log d s) = extension_prefs s"
  "install_directory (Log d s) = install_directory s"
  "extensions_enabled (Log d s) = extensions_enabled s"
  "profile (Log d s) = profile s"
  "notifications (Log d s) = notifications s"
  "posted_tasks (Log d s) = posted_tasks s"
  "installers (Log d s) = installers s"
  "diagnostics (Log d s) = diagnostics s @ [d]"
  "error_reports (Log d s) = error_reports s"
  by (simp_all add: Log_def)

lemma NotifyExtensionLoaded_simps:
  "extensions (NotifyExtensionLoaded e s) = extensions s"
  "disabled_extensions (NotifyExtensionLoaded e s) = disabled_extensions s"
  "pending_extensions (NotifyExtensionLoaded e s) = pending_extensions s"
  "unloaded_extension_paths (NotifyExtensionLoaded e s) = unloaded_extension_paths s"
  "orphaned_dev_tools (NotifyExtensionLoaded e s) = orphaned_dev_tools s"
  "extension_prefs (NotifyExtensionLoaded e s) = extension_prefs s"
  "install_directory (NotifyExtensionLoaded e s) = install_directory s"
  "extensions_enabled (NotifyExtensionLoaded e s) = extensions_enabled s"
  "profile (NotifyExtensionLoaded e s) = profile s"
  "notifications (NotifyExtensionLoaded e s) = notifications s @ [(EXTENSION_LOADED, ExtensionDetails e)]"
  "installers (NotifyExtensionLoaded e s) = installers s"
  "diagnostics (NotifyExtensionLoaded e s) = diagnostics s"
  "error_reports (NotifyExtensionLoaded e s) = error_reports s"
  by (simp_all add: NotifyExtensionLoaded_def Let_def Notify_simps PostTask_simps split: option.splits)

lemma NotifyExtensionUnloaded_simps:
  "extensions (NotifyExtensionUnloaded e s) = extensions s"
  "disabled_extensions (NotifyExtensionUnloaded e s) = disabled_extensions s"
  "pending_extensions (NotifyExtensionUnloaded e s) = pending_extensions s"
  "unloaded_extension_paths (NotifyExtensionUnloaded e s) = unloaded_extension_paths s"
  "orphaned_dev_tools (NotifyExtensionUnloaded e s) = orphaned_dev_tools s"
  "extension_prefs (NotifyExtensionUnloaded e s) = extension_prefs s"
  "install_directory (NotifyExtensionUnloaded e s) = install_directory s"
  "extensions_enabled (NotifyExtensionUnloaded e s) = extensions_enabled s"
  "profile (NotifyExtensionUnloaded e s) = profile s"
  "notifications (NotifyExtensionUnloaded e s) = notifications s @ [(EXTENSION_UNLOADED, ExtensionDetails e)]"
  "installers (NotifyExtensionUnloaded e s) = installers s"
  "diagnostics (NotifyExtensionUnloaded e s) = diagnostics s"
  "error_reports (NotifyExtensionUnloaded e s) = error_reports s"
  by (simp_all add: NotifyExtensionUnloaded_def Let_def Notify_simps PostTask_simps split: option.splits)

lemmas effects = Notify_simps PostTask_simps Log_simps NotifyExtensionLoaded_simps
  NotifyExtensionUnloaded_simps

subsection \<open>Lists of records\<close>

lemma first_with_id_None: "first_with_id i es = None \<longleftrightarrow> i \<notin> ext_id ` set es"
  by (induction es) auto

lemma first_with_id_Some: "first_with_id i es = Some e \<Longrightarrow> e \<in> set es \<and> ext_id e = i"
  by (induction es) (auto split: if_splits)

lemma first_with_id_distinct:
  "distinct (map ext_id es) \<Longrightarrow> e \<in> set es \<Longrightarrow> first_with_id (ext_id e) es = Some e"
  by (induction es) auto

lemma find_ptr_None: "find_ptr p es = None \<longleftrightarrow> p \<notin> addr ` set es"
  by (induction es) auto

lemma erase_ptr_absent: "p \<notin> addr ` set es \<Longrightarrow> erase_ptr p es = es"
  by (induction es) auto

lemma erase_ptr_filter:
  "distinct (map addr es) \<Longrightarrow> distinct (map ext_id es) \<Longrightarrow> e \<in> set es \<Longrightarrow>
   erase_ptr (addr e) es = filter (\<lambda>x. ext_id x \<noteq> ext_id e) es"
proof (induction es)
  case Nil
  then show ?case by simp
next
  case (Cons a es)
  show ?case
  proof (cases "a = e")
    case True
    have "ext_id e \<notin> ext_id ` set es" using Cons.prems True by simp
    then have "\<forall>x\<in>set es. ext_id x \<noteq> ext_id e" by (metis image_eqI)
    then have "filter (\<lambda>x. ext_id x \<noteq> ext_id e) es = es" by (simp add: filter_id_conv)
    then show ?thesis using True by simp
  next
    case False
    then have "e \<in> set es" using Cons.prems by simp
    moreover have "addr a \<noteq> addr e" "ext_id a \<noteq> ext_id e"
      using Cons.prems \<open>e \<in> set es\<close> by auto
    ultimately show ?thesis using Cons by simp
  qed
qed

lemma filter_other_id:
  "ext_id e \<notin> ext_id ` set es \<Longrightarrow> filter (\<lambda>x. ext_id x \<noteq> ext_id e) es = es"
  by (induction es) auto

lemma filter_eq_filter_neq: "filter (\<lambda>x. ext_id x = i) (filter (\<lambda>x. ext_id x \<noteq> i) xs) = []"
  by (induction xs) auto

lemma set_flag_in_simps:
  "set_flag_in p b [] = []"
  "set_flag_in p b (e # es) = (if addr e = p then e\<lparr>being_upgraded := b\<rparr> else e) # set_flag_in p b es"
  by (simp_all add: set_flag_in_def)

lemma map_addr_set_flag_in [simp]: "map addr (set_flag_in p b es) = map addr es"
  by (induction es) (auto simp: set_flag_in_def)

lemma map_ext_id_set_flag_in [simp]: "map ext_id (set_flag_in p b es) = map ext_id es"
  by (induction es) (auto simp: set_flag_in_def)

lemma set_flag_in_absent: "p \<notin> addr ` set es \<Longrightarrow> set_flag_in p b es = es"
  by (induction es) (auto simp: set_flag_in_def)

lemma set_flag_in_append [simp]:
  "set_flag_in p b (xs @ ys) = set_flag_in p b xs @ set_flag_in p b ys"
  by (simp add: set_flag_in_def)

lemma lowercase_set_flag_in [simp]:
  "list_all lowercase_id (set_flag_in p b es) = list_all lowercase_id es"
  by (induction es) (auto simp: set_flag_in_def lowercase_id_def)

lemma filter_set_flag_in:
  "distinct (map addr es) \<Longrightarrow> old \<in> set es \<Longrightarrow>
   filter (\<lambda>x. ext_id x \<noteq> ext_id old) (set_flag_in (addr old) b es)
     = filter (\<lambda>x. ext_id x \<noteq> ext_id old) es"
proof (induction es)
  case Nil
  then show ?case by simp
next
  case (Cons a es)
  show ?case
  proof (cases "a = old")
    case True
    then have "addr old \<notin> addr ` set es" using Cons.prems by simp
    then have "set_flag_in (addr old) b es = es" by (rule set_flag_in_absent)
    then show ?thesis using True by (simp add: set_flag_in_simps)
  next
    case False
    then have "old \<in> set es" using Cons.prems by simp
    then have "addr a \<noteq> addr old" using Cons.prems by auto
    then show ?thesis using Cons \<open>old \<in> set es\<close> by (simp add: set_flag_in_simps)
  qed
qed

lemma distinct_map_move_right:
  assumes "distinct (map f (xs @ ys))" and "e \<in> set ys"
  shows "distinct (map f (xs @ [e] @ filter (\<lambda>x. g x \<noteq> g e) ys))"
proof -
  have inj: "inj_on f (set ys)" and dy: "distinct ys"
    and dx: "distinct (map f xs)" and disj: "f ` set xs \<inter> f ` set ys = {}"
    using assms(1) by (auto simp: distinct_map)
  have "f e \<notin> f ` set (filter (\<lambda>x. g x \<noteq> g e) ys)"
  proof
    assume "f e \<in> f ` set (filter (\<lambda>x. g x \<noteq> g e) ys)"
    then obtain y where y: "y \<in> set ys" "g y \<noteq> g e" "f y = f e" by auto
    then have "y = e" using inj assms(2) by (auto dest: inj_onD)
    then show False using y(2) by simp
  qed
  moreover have "f e \<notin> f ` set xs" using disj assms(2) by auto
  moreover have "f ` set xs \<inter> f ` set (filter (\<lambda>x. g x \<noteq> g e) ys) = {}" using disj by auto
  moreover have "distinct (map f (filter (\<lambda>x. g x \<noteq> g e) ys))"
    using assms(1) by (simp add: distinct_map_filter)
  ultimately show ?thesis using dx by auto
qed

lemma distinct_map_move_left:
  assumes "distinct (map f (xs @ ys))" and "e \<in> set xs"
  shows "distinct (map f (filter (\<lambda>x. g x \<noteq> g e) xs @ ys @ [e]))"
proof -
  have inj: "inj_on f (set xs)"
    and dy: "distinct (map f ys)" and disj: "f ` set xs \<inter> f ` set ys = {}"
    using assms(1) by (auto simp: distinct_map)
  have "f e \<notin> f ` set (filter (\<lambda>x. g x \<noteq> g e) xs)"
  proof
    assume "f e \<in> f ` set (filter (\<lambda>x. g x \<noteq> g e) xs)"
    then obtain y where y: "y \<in> set xs" "g y \<noteq> g e" "f y = f e" by auto
    then have "y = e" using inj assms(2) by (auto dest: inj_onD)
    then show False using y(2) by simp
  qed
  moreover have "f e \<notin> f ` set ys" using disj assms(2) by auto
  moreover have "f ` set (filter (\<lambda>x. g x \<noteq> g e) xs) \<inter> f ` set ys = {}" using disj by auto
  moreover have "distinct (map f (filter (\<lambda>x. g x \<noteq> g e) xs))"
    using assms(1) by (simp add: distinct_map_filter)
  ultimately show ?thesis using dy by auto
qed

subsection \<open>Lookup and well-formed registries\<close>

lemma registered_set_being_upgraded [simp]:
  "registered (set_being_upgraded p b s) = set_flag_in p b (registered s)"
  by (simp add: registered_def set_being_upgraded_def)

lemma registry_ok_set_being_upgraded [simp]:
  "registry_ok (set_being_upgraded p b s) = registry_ok s"
  by (simp add: registry_ok_def)

lemma registry_ok_cong:
  "extensions s' = extensions s \<Longrightarrow> disabled_extensions s' = disabled_extensions s \<Longrightarrow>
   registry_ok s \<Longrightarrow> registry_ok s'"
  by (simp add: registry_ok_def registered_def)

lemma registered_cong:
  "extensions s' = extensions s \<Longrightarrow> disabled_extensions s' = disabled_extensions s \<Longrightarrow>
   registered s' = registered s"
  by (simp add: registered_def)

lemma lookup_cong:
  "extensions s' = extensions s \<Longrightarrow> disabled_extensions s' = disabled_extensions s \<Longrightarrow>
   GetExtensionByIdInternal eid a b s' = GetExtensionByIdInternal eid a b s"
  by (simp add: GetExtensionByIdInternal_def Let_def cong: option.case_cong if_cong)

lemma lookup_registered:
  assumes "registry_ok s" and "e \<in> set (registered s)"
  shows "GetExtensionByIdInternal (ext_id e) True True s = Some e"
proof -
  have di: "distinct (map ext_id (extensions s))" "distinct (map ext_id (disabled_extensions s))"
    and disj_i: "ext_id ` set (extensions s) \<inter> ext_id ` set (disabled_extensions s) = {}"
    using assms(1) by (auto simp: registry_ok_def registered_def)
  have low: "StringToLowerASCII (ext_id e) = ext_id e"
    using assms by (auto simp: registry_ok_def list_all_iff lowercase_id_def)
  show ?thesis
  proof (cases "e \<in> set (extensions s)")
    case True
    then show ?thesis
      by (simp add: GetExtensionByIdInternal_def low first_with_id_distinct di)
  next
    case False
    then have dis: "e \<in> set (disabled_extensions s)"
      using assms(2) by (simp add: registered_def)
    then have "ext_id e \<notin> ext_id ` set (extensions s)" using disj_i by auto
    then have "first_with_id (ext_id e) (extensions s) = None"
      by (simp add: first_with_id_None)
    then show ?thesis
      using dis by (simp add: GetExtensionByIdInternal_def low first_with_id_distinct di)
  qed
qed

lemma lookup_Some:
  assumes "GetExtensionByIdInternal eid ie idis s = Some e"
  shows "e \<in> set (registered s) \<and> ext_id e = StringToLowerASCII eid"
  using assms
  by (auto simp: GetExtensionByIdInternal_def Let_def registered_def
      split: option.splits if_splits dest: first_with_id_Some)

lemma lookup_None:
  "GetExtensionByIdInternal eid True True s = None \<longleftrightarrow>
     StringToLowerASCII eid \<notin> ext_id ` set (registered s)"
proof (cases "first_with_id (StringToLowerASCII eid) (extensions s)")
  case None
  have a: "GetExtensionByIdInternal eid True True s
             = first_with_id (StringToLowerASCII eid) (disabled_extensions s)"
    by (simp add: GetExtensionByIdInternal_def Let_def None)
  have b: "StringToLowerASCII eid \<notin> ext_id ` set (extensions s)"
    using None first_with_id_None by blast
  show ?thesis
    unfolding a using b by (simp add: registered_def image_Un first_with_id_None)
next
  case (Some x)
  then have "StringToLowerASCII eid \<in> ext_id ` set (extensions s)"
    using first_with_id_None[of "StringToLowerASCII eid" "extensions s"] by simp
  then show ?thesis
    using Some by (simp add: GetExtensionByIdInternal_def Let_def registered_def image_Un)
qed

lemma registered_lowercase:
  "registry_ok s \<Longrightarrow> e \<in> set (registered s) \<Longrightarrow> StringToLowerASCII (ext_id e) = ext_id e"
  by (auto simp: registry_ok_def list_all_iff lowercase_id_def)

lemma registry_ok_filter:
  assumes "registry_ok s"
      and "extensions s' = filter P (extensions s)"
      and "disabled_extensions s' = filter P (disabled_extensions s)"
  shows "registry_ok s'"
proof -
  have "registered s' = filter P (registered s)"
    using assms(2,3) by (simp add: registered_def)
  then show ?thesis
    using assms(1) by (simp add: registry_ok_def distinct_map_filter list_all_iff)
qed

lemma registry_ok_disjoint:
  "registry_ok s \<Longrightarrow> ext_id ` set (extensions s) \<inter> ext_id ` set (disabled_extensions s) = {}"
  by (auto simp: registry_ok_def registered_def)

lemma fresh_subset:
  "fresh e s \<Longrightarrow> set (registered s') \<subseteq> set (registered s) \<Longrightarrow> fresh e s'"
  by (auto simp: fresh_def)

lemma registry_ok_place:
  assumes ok: "registry_ok s" and fr: "fresh e s" and low: "lowercase_id e"
      and ext: "extensions s' = filter (\<lambda>x. ext_id x \<noteq> ext_id e) (extensions s)
                                  @ (if c1 then [e'] else [])"
      and dis: "disabled_extensions s' = filter (\<lambda>x. ext_id x \<noteq> ext_id e) (disabled_extensions s)
                                  @ (if c2 then [e'] else [])"
      and excl: "\<not> (c1 \<and> c2)"
      and same: "addr e' = addr e" "ext_id e' = ext_id e"
  shows "registry_ok s'"
proof -
  define s1 where "s1 = s\<lparr>extensions := filter (\<lambda>x. ext_id x \<noteq> ext_id e) (extensions s),
                          disabled_extensions := filter (\<lambda>x. ext_id x \<noteq> ext_id e) (disabled_extensions s)\<rparr>"
  have ok1: "registry_ok s1"
    using ok by (rule registry_ok_filter) (simp_all add: s1_def)
  have reg1: "registered s1 = filter (\<lambda>x. ext_id x \<noteq> ext_id e) (registered s)"
    by (simp add: registered_def s1_def)
  have na: "addr e' \<notin> addr ` set (registered s1)"
    using fr same by (auto simp: fresh_def reg1)
  have ni: "ext_id e' \<notin> ext_id ` set (registered s1)"
    using same by (auto simp: reg1)
  have lo: "lowercase_id e'" using low same by (simp add: lowercase_id_def)
  have d1: "distinct (map addr (registered s1))" "distinct (map ext_id (registered s1))"
      "list_all lowercase_id (registered s1)"
    using ok1 by (simp_all add: registry_ok_def)
  have set': "set (registered s') \<subseteq> insert e' (set (registered s1))"
    using ext dis by (auto simp: registered_def s1_def split: if_splits)
  have low': "list_all lowercase_id (registered s')"
    using set' d1(3) lo by (auto simp: list_all_iff)
  consider (none) "\<not> c1" "\<not> c2" | (en) "c1" "\<not> c2" | (di) "\<not> c1" "c2" using excl by blast
  then show ?thesis
  proof cases
    case none
    then have "registered s' = registered s1" using ext dis by (simp add: registered_def s1_def)
    then show ?thesis using ok1 by (simp add: registry_ok_def)
  next
    case en
    then have r: "registered s' = extensions s1 @ [e'] @ disabled_extensions s1"
      using ext dis by (simp add: registered_def s1_def)
    have "distinct (map addr (registered s'))" "distinct (map ext_id (registered s'))"
      using d1 na ni by (auto simp: r registered_def[of s1])
    then show ?thesis using low' by (simp add: registry_ok_def)
  next
    case di
    then have r: "registered s' = extensions s1 @ disabled_extensions s1 @ [e']"
      using ext dis by (simp add: registered_def s1_def)
    have "distinct (map addr (registered s'))" "distinct (map ext_id (registered s'))"
      using d1 na ni by (auto simp: r registered_def[of s1])
    then show ?thesis using low' by (simp add: registry_ok_def)
  qed
qed

subsection \<open>Unloading\<close>

lemma UnloadExtension_registered:
  assumes ok: "registry_ok s" and reg: "e \<in> set (registered s)"
  shows "\<exists>s'. UnloadExtension (ext_id e) s = Inr s'
           \<and> extensions s' = filter (\<lambda>x. ext_id x \<noteq> ext_id e) (extensions s)
           \<and> disabled_extensions s' = filter (\<lambda>x. ext_id x \<noteq> ext_id e) (disabled_extensions s)
           \<and> unloaded_extension_paths s' = (unloaded_extension_paths s)(ext_id e \<mapsto> path e)
           \<and> extension_prefs s' = extension_prefs s
           \<and> pending_extensions s' = pending_extensions s
           \<and> notifications s' = notifications s @
                [(if e \<in> set (disabled_extensions s) then EXTENSION_UNLOADED_DISABLED
                  else EXTENSION_UNLOADED, ExtensionDetails e)]"
proof -
  have da: "distinct (map addr (extensions s))" "distinct (map addr (disabled_extensions s))"
    and di: "distinct (map ext_id (extensions s))" "distinct (map ext_id (disabled_extensions s))"
    and disj_a: "addr ` set (extensions s) \<inter> addr ` set (disabled_extensions s) = {}"
    and disj_i: "ext_id ` set (extensions s) \<inter> ext_id ` set (disabled_extensions s) = {}"
    using ok by (auto simp: registry_ok_def registered_def)
  have look: "GetExtensionByIdInternal (ext_id e) True True s = Some e"
    using ok reg by (rule lookup_registered)
  show ?thesis
  proof (cases "e \<in> set (extensions s)")
    case True
    have nd: "addr e \<notin> addr ` set (disabled_extensions s)"
        "ext_id e \<notin> ext_id ` set (disabled_extensions s)"
      using True disj_a disj_i by auto
    then have nd': "e \<notin> set (disabled_extensions s)" by auto
    have fp: "find_ptr (addr e) (disabled_extensions s) = None"
      using nd(1) by (simp add: find_ptr_None)
    have run: "UnloadExtension (ext_id e) s =
        Inr (NotifyExtensionUnloaded e
              (s\<lparr>unloaded_extension_paths := (unloaded_extension_paths s)(ext_id e \<mapsto> path e),
                  extensions := erase_ptr (addr e) (extensions s)\<rparr>))"
      by (simp add: UnloadExtension_def look fp)
    show ?thesis
      unfolding run
      using nd nd' True
      by (simp add: effects erase_ptr_filter da di filter_other_id)
  next
    case False
    then have dis: "e \<in> set (disabled_extensions s)" using reg by (simp add: registered_def)
    then have ne: "ext_id e \<notin> ext_id ` set (extensions s)" using disj_i by auto
    have fp: "find_ptr (addr e) (disabled_extensions s) \<noteq> None"
      using dis by (simp add: find_ptr_None)
    have run: "UnloadExtension (ext_id e) s =
        Inr (Notify EXTENSION_UNLOADED_DISABLED (ExtensionDetails e)
              (s\<lparr>unloaded_extension_paths := (unloaded_extension_paths s)(ext_id e \<mapsto> path e),
                  disabled_extensions := erase_ptr (addr e) (disabled_extensions s)\<rparr>))"
      using fp by (simp add: UnloadExtension_def look)
    show ?thesis
      unfolding run
      using dis ne
      by (simp add: effects erase_ptr_filter da di filter_other_id)
  qed
qed

lemma UnloadExtension_same_lower:
  "StringToLowerASCII a = StringToLowerASCII b \<Longrightarrow> UnloadExtension a s = UnloadExtension b s"
  by (simp add: UnloadExtension_def GetExtensionByIdInternal_def)

lemma UnloadExtension_result:
  assumes ok: "registry_ok s" and un: "UnloadExtension eid s = Inr s'"
  shows "\<exists>e. e \<in> set (registered s) \<and> ext_id e = StringToLowerASCII eid
           \<and> extensions s' = filter (\<lambda>x. ext_id x \<noteq> ext_id e) (extensions s)
           \<and> disabled_extensions s' = filter (\<lambda>x. ext_id x \<noteq> ext_id e) (disabled_extensions s)
           \<and> unloaded_extension_paths s' = (unloaded_extension_paths s)(ext_id e \<mapsto> path e)
           \<and> extension_prefs s' = extension_prefs s
           \<and> pending_extensions s' = pending_extensions s"
proof -
  obtain e where look: "GetExtensionByIdInternal eid True True s = Some e"
    using un by (cases "GetExtensionByIdInternal eid True True s") (auto simp: UnloadExtension_def)
  have reg: "e \<in> set (registered s)" and eid: "ext_id e = StringToLowerASCII eid"
    using lookup_Some[OF look] by simp_all
  have "StringToLowerASCII eid = StringToLowerASCII (ext_id e)"
    using registered_lowercase[OF ok reg] eid by simp
  then have "UnloadExtension eid s = UnloadExtension (ext_id e) s"
    by (rule UnloadExtension_same_lower)
  then show ?thesis
    using un UnloadExtension_registered[OF ok reg] reg eid by auto
qed

lemma registry_ok_UnloadExtension:
  assumes "registry_ok s" and "UnloadExtension eid s = Inr s'"
  shows "registry_ok s'"
  using UnloadExtension_result[OF assms]
  by (elim exE conjE) (rule registry_ok_filter[OF assms(1)], assumption+)

lemma unload_each_enabled:
  assumes "registry_ok s" and "distinct ids" and "set ids \<subseteq> ext_id ` set (extensions s)"
  shows "\<exists>s'. unload_each ids s = Inr s'
           \<and> extensions s' = filter (\<lambda>e. ext_id e \<notin> set ids) (extensions s)
           \<and> disabled_extensions s' = disabled_extensions s
           \<and> extension_prefs s' = extension_prefs s
           \<and> pending_extensions s' = pending_extensions s"
  using assms
proof (induction ids arbitrary: s)
  case Nil
  then show ?case by simp
next
  case (Cons i ids)
  obtain e where e: "e \<in> set (extensions s)" "ext_id e = i"
    using Cons.prems(3) by auto
  then have reg: "e \<in> set (registered s)" by (simp add: registered_def)
  from UnloadExtension_registered[OF Cons.prems(1) reg]
  obtain s1 where un': "UnloadExtension (ext_id e) s = Inr s1"
     and l1: "extensions s1 = filter (\<lambda>x. ext_id x \<noteq> ext_id e) (extensions s)"
             "disabled_extensions s1 = filter (\<lambda>x. ext_id x \<noteq> ext_id e) (disabled_extensions s)"
     and rest1: "extension_prefs s1 = extension_prefs s" "pending_extensions s1 = pending_extensions s"
    by blast
  have un: "UnloadExtension i s = Inr s1" using un' e(2) by simp
  have "ext_id e \<notin> ext_id ` set (disabled_extensions s)"
    using registry_ok_disjoint[OF Cons.prems(1)] e(1) by auto
  then have dis1: "disabled_extensions s1 = disabled_extensions s"
    by (simp add: l1 filter_other_id)
  have ext1: "extensions s1 = filter (\<lambda>x. ext_id x \<noteq> i) (extensions s)"
    using l1(1) e(2) by simp
  have ok1: "registry_ok s1" using Cons.prems(1) un by (rule registry_ok_UnloadExtension)
  have ni: "i \<notin> set ids" using Cons.prems(2) by simp
  have sub1: "set ids \<subseteq> ext_id ` set (extensions s1)"
  proof
    fix x assume x: "x \<in> set ids"
    then obtain y where y: "y \<in> set (extensions s)" "ext_id y = x"
      using Cons.prems(3) by auto
    have "x \<noteq> i" using x ni by auto
    then have "y \<in> set (extensions s1)" using y by (simp add: ext1)
    then show "x \<in> ext_id ` set (extensions s1)" using y(2) by blast
  qed
  have "distinct ids" using Cons.prems(2) by simp
  from Cons.IH[OF ok1 this sub1] obtain s' where s':
     "unload_each ids s1 = Inr s'"
     "extensions s' = filter (\<lambda>e. ext_id e \<notin> set ids) (extensions s1)"
     "disabled_extensions s' = disabled_extensions s1"
     "extension_prefs s' = extension_prefs s1"
     "pending_extensions s' = pending_extensions s1"
    by blast
  have f: "filter (\<lambda>e. ext_id e \<notin> set ids) (filter (\<lambda>x. ext_id x \<noteq> i) (extensions s))
          = filter (\<lambda>e. ext_id e \<notin> set (i # ids)) (extensions s)"
    by (auto intro: filter_cong)
  have "unload_each (i # ids) s = Inr s'" using un s'(1) by simp
  moreover have "extensions s' = filter (\<lambda>e. ext_id e \<notin> set (i # ids)) (extensions s)"
    using s'(2) ext1 f by simp
  moreover have "disabled_extensions s' = disabled_extensions s" using s'(3) dis1 by simp
  moreover have "extension_prefs s' = extension_prefs s" using s'(4) rest1 by simp
  moreover have "pending_extensions s' = pending_extensions s" using s'(5) rest1 by simp
  ultimately show ?case by blast
qed

lemma registry_ok_unload_each:
  "registry_ok s \<Longrightarrow> unload_each ids s = Inr s' \<Longrightarrow> registry_ok s'"
proof (induction ids arbitrary: s)
  case Nil
  then show ?case by simp
next
  case (Cons i ids)
  then obtain s1 where s1: "UnloadExtension i s = Inr s1" "unload_each ids s1 = Inr s'"
    by (auto split: sum.splits)
  have "registry_ok s1" using Cons.prems(1) s1(1) by (rule registry_ok_UnloadExtension)
  then show ?case using s1(2) by (rule Cons.IH)
qed

subsection \<open>Loading\<close>

lemma OnExtensionLoaded_upgrade:
  fixes env :: Env and e old :: Extension and allow :: bool and s :: ExtensionsService
  assumes ok: "registry_ok s" and fr: "fresh e s" and low: "lowercase_id e"
      and permitted: "load_permitted e s"
      and old: "GetExtensionByIdInternal (ext_id e) True True s = Some old"
      and newer: "CompareTo env (version e) (version old) > 0"
  defines "silent \<equiv> allow \<or> \<not> IsPrivilegeIncrease env old e"
  defines "prefs' \<equiv> (if silent then extension_prefs s
                      else Prefs_SetDidExtensionEscalatePermissions e True
                             (Prefs_SetExtensionState e DISABLED (extension_prefs s)))"
  defines "st \<equiv> Prefs_GetExtensionState (ext_id e) prefs'"
  shows "\<exists>s'. OnExtensionLoaded env e allow s = Inr s'
           \<and> extensions s' = filter (\<lambda>x. ext_id x \<noteq> ext_id e) (extensions s)
                               @ (if st = ENABLED then [e\<lparr>being_upgraded := False\<rparr>] else [])
           \<and> disabled_extensions s' = filter (\<lambda>x. ext_id x \<noteq> ext_id e) (disabled_extensions s)
                               @ (if st = DISABLED then [e\<lparr>being_upgraded := False\<rparr>] else [])
           \<and> extension_prefs s' = prefs'
           \<and> pending_extensions s' = pending_extensions s
           \<and> unloaded_extension_paths s' = (unloaded_extension_paths s)(ext_id e \<mapsto> path old)"
proof -
  define s0 where "s0 = s\<lparr>unloaded_extension_paths := (unloaded_extension_paths s)(ext_id e := None)\<rparr>"
  define s1 where "s1 = (if silent then set_being_upgraded (addr old) True s0 else s0)"
  define old1 where "old1 = (if silent then old\<lparr>being_upgraded := True\<rparr> else old)"
  define e1 where "e1 = (if silent then e\<lparr>being_upgraded := True\<rparr> else e)"
  have lists0: "extensions s0 = extensions s" "disabled_extensions s0 = disabled_extensions s"
    by (simp_all add: s0_def)
  have ok0: "registry_ok s0" using lists0 ok by (rule registry_ok_cong)
  have old_reg: "old \<in> set (registered s)" and old_id: "ext_id old = ext_id e"
    using lookup_Some[OF old] low by (simp_all add: lowercase_id_def)
  have old0: "GetExtensionByIdInternal (ext_id e) True True s0 = Some old"
    using old lookup_cong[OF lists0] by simp
  have ok1: "registry_ok s1" using ok0 by (simp add: s1_def)
  have reg0: "registered s0 = registered s" by (simp add: registered_def lists0)
  have da: "distinct (map addr (extensions s))" "distinct (map addr (disabled_extensions s))"
    using ok by (auto simp: registry_ok_def registered_def)
  have old1_reg: "old1 \<in> set (registered s1)"
    using old_reg by (auto simp: s1_def old1_def reg0 set_flag_in_def)
  have old1_id: "ext_id old1 = ext_id e" "path old1 = path old" by (simp_all add: old1_def old_id)
  from UnloadExtension_registered[OF ok1 old1_reg, unfolded old1_id]
  obtain s2 where unl2: "UnloadExtension (ext_id e) s1 = Inr s2"
     and l2: "extensions s2 = filter (\<lambda>x. ext_id x \<noteq> ext_id e) (extensions s1)"
             "disabled_extensions s2 = filter (\<lambda>x. ext_id x \<noteq> ext_id e) (disabled_extensions s1)"
             "unloaded_extension_paths s2 = (unloaded_extension_paths s1)(ext_id e \<mapsto> path old)"
             "extension_prefs s2 = extension_prefs s1" "pending_extensions s2 = pending_extensions s1"
    by auto
  have f_en: "filter (\<lambda>x. ext_id x \<noteq> ext_id e) (extensions s1)
                = filter (\<lambda>x. ext_id x \<noteq> ext_id e) (extensions s)"
  proof (cases "silent")
    case False then show ?thesis by (simp add: s1_def lists0)
  next
    case True
    show ?thesis
    proof (cases "old \<in> set (extensions s)")
      case True
      then show ?thesis using \<open>silent\<close> filter_set_flag_in[OF da(1) True, of True]
        by (simp add: s1_def set_being_upgraded_def lists0 old_id)
    next
      case False
      then have "old \<in> set (disabled_extensions s)" using old_reg by (simp add: registered_def)
      then have "addr old \<notin> addr ` set (extensions s)"
        using ok by (auto simp: registry_ok_def registered_def)
      then show ?thesis using \<open>silent\<close>
        by (simp add: s1_def set_being_upgraded_def lists0 set_flag_in_absent)
    qed
  qed
  have f_dis: "filter (\<lambda>x. ext_id x \<noteq> ext_id e) (disabled_extensions s1)
                = filter (\<lambda>x. ext_id x \<noteq> ext_id e) (disabled_extensions s)"
  proof (cases "silent")
    case False then show ?thesis by (simp add: s1_def lists0)
  next
    case True
    show ?thesis
    proof (cases "old \<in> set (disabled_extensions s)")
      case True
      then show ?thesis using \<open>silent\<close> filter_set_flag_in[OF da(2) True, of True]
        by (simp add: s1_def set_being_upgraded_def lists0 old_id)
    next
      case False
      then have "old \<in> set (extensions s)" using old_reg by (simp add: registered_def)
      then have "addr old \<notin> addr ` set (disabled_extensions s)"
        using ok by (auto simp: registry_ok_def registered_def)
      then show ?thesis using \<open>silent\<close>
        by (simp add: s1_def set_being_upgraded_def lists0 set_flag_in_absent)
    qed
  qed
  have fresh_f: "addr e \<notin> addr ` set (filter (\<lambda>x. ext_id x \<noteq> ext_id e) (extensions s))"
                "addr e \<notin> addr ` set (filter (\<lambda>x. ext_id x \<noteq> ext_id e) (disabled_extensions s))"
    using fr by (auto simp: fresh_def registered_def)
  have e1_flag: "e1\<lparr>being_upgraded := False\<rparr> = e\<lparr>being_upgraded := False\<rparr>" "addr e1 = addr e"
     "ext_id e1 = ext_id e"
    by (simp_all add: e1_def)
  have prefs1: "extension_prefs s1 = extension_prefs s" "pending_extensions s1 = pending_extensions s"
     "unloaded_extension_paths s1 = (unloaded_extension_paths s)(ext_id e := None)"
    by (simp_all add: s1_def s0_def set_being_upgraded_def)
  define s3 where "s3 = (if silent then s2 else s2\<lparr>extension_prefs := prefs'\<rparr>)"
  have s3: "extensions s3 = filter (\<lambda>x. ext_id x \<noteq> ext_id e) (extensions s)"
      "disabled_extensions s3 = filter (\<lambda>x. ext_id x \<noteq> ext_id e) (disabled_extensions s)"
      "extension_prefs s3 = prefs'"
      "pending_extensions s3 = pending_extensions s"
      "unloaded_extension_paths s3 = (unloaded_extension_paths s)(ext_id e \<mapsto> path old)"
    by (simp_all add: s3_def l2 f_en f_dis prefs1 prefs'_def)
  have en0: "extensions_enabled s0 = extensions_enabled s" by (simp add: s0_def)
  have p2: "extension_prefs s2 = extension_prefs s" by (simp add: l2 prefs1)
  have main: "OnExtensionLoaded env e allow s =
     Inr (set_being_upgraded (addr e) False (OnExtensionLoaded_place e1 s3))"
  proof (cases silent)
    case True
    then have "allow \<or> \<not> IsPrivilegeIncrease env old e" by (simp add: silent_def)
    then show ?thesis
      using permitted old0 newer unl2 True
      by (simp add: OnExtensionLoaded_def load_permitted_def Let_def s0_def[symmetric] old_id
          s1_def e1_def s3_def en0)
  next
    case False
    then have "\<not> (allow \<or> \<not> IsPrivilegeIncrease env old e)" by (simp add: silent_def)
    then show ?thesis
      using permitted old0 newer unl2 False
      by (simp add: OnExtensionLoaded_def load_permitted_def Let_def s0_def[symmetric] old_id
          s1_def e1_def s3_def prefs'_def en0 p2)
  qed
  have place: "extensions (OnExtensionLoaded_place e1 s3)
                 = extensions s3 @ (if st = ENABLED then [e1] else [])"
       "disabled_extensions (OnExtensionLoaded_place e1 s3)
                 = disabled_extensions s3 @ (if st = DISABLED then [e1] else [])"
       "extension_prefs (OnExtensionLoaded_place e1 s3) = extension_prefs s3"
       "pending_extensions (OnExtensionLoaded_place e1 s3) = pending_extensions s3"
       "unloaded_extension_paths (OnExtensionLoaded_place e1 s3) = unloaded_extension_paths s3"
    by (cases st; simp add: OnExtensionLoaded_place_def st_def s3 e1_flag effects)+
  have reset: "set_flag_in (addr e) False [e1] = [e\<lparr>being_upgraded := False\<rparr>]"
    by (simp add: set_flag_in_simps e1_flag)
  have keep: "set_flag_in (addr e) False (filter (\<lambda>x. ext_id x \<noteq> ext_id e) (extensions s))
                = filter (\<lambda>x. ext_id x \<noteq> ext_id e) (extensions s)"
      "set_flag_in (addr e) False (filter (\<lambda>x. ext_id x \<noteq> ext_id e) (disabled_extensions s))
                = filter (\<lambda>x. ext_id x \<noteq> ext_id e) (disabled_extensions s)"
    by (rule set_flag_in_absent[OF fresh_f(1)], rule set_flag_in_absent[OF fresh_f(2)])
  show ?thesis
    unfolding main
    by (simp add: set_being_upgraded_def place s3 keep reset set_flag_in_simps(1))
qed

lemma OnExtensionLoaded_new:
  assumes fr: "fresh e s" and permitted: "load_permitted e s"
      and none: "GetExtensionByIdInternal (ext_id e) True True s = None"
  shows "\<exists>s'. OnExtensionLoaded env e allow s = Inr s'
           \<and> extensions s' = extensions s
                 @ (if Prefs_GetExtensionState (ext_id e) (extension_prefs s) = ENABLED
                    then [e\<lparr>being_upgraded := False\<rparr>] else [])
           \<and> disabled_extensions s' = disabled_extensions s
                 @ (if Prefs_GetExtensionState (ext_id e) (extension_prefs s) = DISABLED
                    then [e\<lparr>being_upgraded := False\<rparr>] else [])
           \<and> extension_prefs s' = extension_prefs s
           \<and> pending_extensions s' = pending_extensions s
           \<and> unloaded_extension_paths s' = (unloaded_extension_paths s)(ext_id e := None)"
proof -
  define s0 where "s0 = s\<lparr>unloaded_extension_paths := (unloaded_extension_paths s)(ext_id e := None)\<rparr>"
  have none0: "GetExtensionByIdInternal (ext_id e) True True s0 = None"
    using none lookup_cong[of s0 s] by (simp add: s0_def)
  have en0: "extensions_enabled s0 = extensions_enabled s" by (simp add: s0_def)
  have main: "OnExtensionLoaded env e allow s =
                Inr (set_being_upgraded (addr e) False (OnExtensionLoaded_place e s0))"
    using permitted none0
    by (simp add: OnExtensionLoaded_def Let_def s0_def[symmetric] load_permitted_def en0)
  have keep: "set_flag_in (addr e) False (extensions s) = extensions s"
      "set_flag_in (addr e) False (disabled_extensions s) = disabled_extensions s"
    using fr by (auto simp: fresh_def registered_def intro: set_flag_in_absent)
  show ?thesis
    unfolding main
    by (cases "Prefs_GetExtensionState (ext_id e) (extension_prefs s)")
       (simp_all add: OnExtensionLoaded_place_def s0_def set_being_upgraded_def
          effects keep set_flag_in_simps)
qed

lemma OnExtensionLoaded_duplicate:
  assumes old: "GetExtensionByIdInternal (ext_id e) True True s = Some old"
      and notnewer: "CompareTo env (version e) (version old) \<le> 0"
  shows "\<exists>s'. OnExtensionLoaded env e allow s = Inr s'
           \<and> extensions s' = extensions s \<and> disabled_extensions s' = disabled_extensions s
           \<and> extension_prefs s' = extension_prefs s
           \<and> notifications s' = notifications s @
               (if load_permitted e s
                then [(EXTENSION_OVERINSTALL_ERROR,
                       StringDetails (''Duplicate extension load attempt: '' @ ext_id e))]
                else [])
           \<and> diagnostics s' = diagnostics s @
               (if load_permitted e s
                then [LOG_WARNING (''Duplicate extension load attempt: '' @ ext_id e)]
                else [])"
proof -
  define s0 where "s0 = s\<lparr>unloaded_extension_paths := (unloaded_extension_paths s)(ext_id e := None)\<rparr>"
  have "GetExtensionByIdInternal (ext_id e) True True s0 = Some old"
    using old lookup_cong[of s0 s] by (simp add: s0_def)
  then show ?thesis
    using notnewer
    by (simp add: OnExtensionLoaded_def Let_def s0_def[symmetric] load_permitted_def
        ReportExtensionLoadError_def Notify_def Log_def) (simp add: s0_def)
qed

lemma registry_ok_OnExtensionLoaded:
  assumes ok: "registry_ok s" and fr: "fresh e s" and low: "lowercase_id e"
      and run: "OnExtensionLoaded env e allow s = Inr s'"
  shows "registry_ok s'"
proof (cases "load_permitted e s")
  case False
  then have "s' = s\<lparr>unloaded_extension_paths := (unloaded_extension_paths s)(ext_id e := None)\<rparr>"
    using run by (simp add: OnExtensionLoaded_def load_permitted_def)
  then show ?thesis using ok by (simp add: registry_ok_def registered_def)
next
  case permitted: True
  show ?thesis
  proof (cases "GetExtensionByIdInternal (ext_id e) True True s")
    case None
    from OnExtensionLoaded_new[OF fr permitted None, of env allow] run
    have ext: "extensions s' = extensions s
                 @ (if Prefs_GetExtensionState (ext_id e) (extension_prefs s) = ENABLED
                    then [e\<lparr>being_upgraded := False\<rparr>] else [])"
     and dis: "disabled_extensions s' = disabled_extensions s
                 @ (if Prefs_GetExtensionState (ext_id e) (extension_prefs s) = DISABLED
                    then [e\<lparr>being_upgraded := False\<rparr>] else [])"
      by auto
    have "ext_id e \<notin> ext_id ` set (registered s)"
      using None low by (simp add: lookup_None lowercase_id_def)
    then have f: "filter (\<lambda>x. ext_id x \<noteq> ext_id e) (extensions s) = extensions s"
         "filter (\<lambda>x. ext_id x \<noteq> ext_id e) (disabled_extensions s) = disabled_extensions s"
      by (auto simp: registered_def intro: filter_other_id)
    show ?thesis
      by (rule registry_ok_place[OF ok fr low _ _ _ _ _,
            where e' = "e\<lparr>being_upgraded := False\<rparr>"
              and ?c1.0 = "Prefs_GetExtensionState (ext_id e) (extension_prefs s) = ENABLED"
              and ?c2.0 = "Prefs_GetExtensionState (ext_id e) (extension_prefs s) = DISABLED"])
         (simp_all add: ext dis f)
  next
    case (Some old)
    show ?thesis
    proof (cases "CompareTo env (version e) (version old) > 0")
      case True
      define st where "st = Prefs_GetExtensionState (ext_id e)
              (if allow \<or> \<not> IsPrivilegeIncrease env old e then extension_prefs s
               else Prefs_SetDidExtensionEscalatePermissions e True
                      (Prefs_SetExtensionState e DISABLED (extension_prefs s)))"
      from OnExtensionLoaded_upgrade[OF ok fr low permitted Some True, of allow] run
      have ext: "extensions s' = filter (\<lambda>x. ext_id x \<noteq> ext_id e) (extensions s)
                    @ (if st = ENABLED then [e\<lparr>being_upgraded := False\<rparr>] else [])"
       and dis: "disabled_extensions s' = filter (\<lambda>x. ext_id x \<noteq> ext_id e) (disabled_extensions s)
                    @ (if st = DISABLED then [e\<lparr>being_upgraded := False\<rparr>] else [])"
        by (auto simp: st_def)
      show ?thesis
        by (rule registry_ok_place[OF ok fr low ext dis]) auto
    next
      case False
      then have "CompareTo env (version e) (version old) \<le> 0" by simp
      from OnExtensionLoaded_duplicate[OF Some this, of allow] run
      have "extensions s' = extensions s" "disabled_extensions s' = disabled_extensions s"
        by auto
      then show ?thesis using ok by (rule registry_ok_cong)
    qed
  qed
qed

lemma registry_ok_OnExtensionInstalled:
  assumes ok: "registry_ok s" and fr: "fresh e s" and low: "lowercase_id e"
      and run: "OnExtensionInstalled env e allow s = Inr s'"
  shows "registry_ok s'"
proof (cases "case pending_extensions s (ext_id e) of None \<Rightarrow> False
              | Some info \<Rightarrow> is_theme info \<noteq> IsTheme e")
  case True
  then have "extensions s' = extensions s" "disabled_extensions s' = disabled_extensions s"
    using run by (auto simp: OnExtensionInstalled_def Let_def PostTask_def Log_def)
  then show ?thesis using ok by (rule registry_ok_cong)
next
  case False
  define s2 where "s2 =
     (if IsTheme e
      then Notify THEME_INSTALLED (ExtensionDetails e)
             (s\<lparr>extension_prefs := Prefs_OnExtensionInstalled e (extension_prefs s)\<rparr>)
      else Notify EXTENSION_INSTALLED (ExtensionDetails e)
             (s\<lparr>extension_prefs := Prefs_OnExtensionInstalled e (extension_prefs s)\<rparr>))"
  have lists2: "extensions s2 = extensions s" "disabled_extensions s2 = disabled_extensions s"
    by (simp_all add: s2_def Notify_def)
  have ok2: "registry_ok s2" using lists2 ok by (rule registry_ok_cong)
  have fr2: "fresh e s2" using fr by (simp add: fresh_def registered_def lists2)
  obtain s3 where s3: "OnExtensionLoaded env e allow s2 = Inr s3"
     and lists: "extensions s' = extensions s3" "disabled_extensions s' = disabled_extensions s3"
    using run False
    by (auto simp: OnExtensionInstalled_def Let_def s2_def split: sum.splits if_splits)
  have "registry_ok s3" using ok2 fr2 low s3 by (rule registry_ok_OnExtensionLoaded)
  then show ?thesis using lists registry_ok_cong by blast
qed

lemma registry_ok_LoadInstalledExtension:
  assumes ok: "registry_ok s" and new: "new_objects_ok env s"
      and run: "LoadInstalledExtension env info write_to_prefs s = Inr s'"
  shows "registry_ok s'"
proof (cases "case extension_manifest info of
              Some manifest \<Rightarrow>
                InitFromValue env (extension_path info) manifest (extension_location info \<noteq> LOAD)
            | None \<Rightarrow> Inl (kManifestUnreadable env)")
  case (Inl error)
  then have "extensions s' = extensions s" "disabled_extensions s' = disabled_extensions s"
    using run by (auto simp: LoadInstalledExtension_def ReportExtensionLoadError_def Notify_def Let_def)
  then show ?thesis using ok by (rule registry_ok_cong)
next
  case (Inr tmp)
  then obtain manifest where
    "InitFromValue env (extension_path info) manifest (extension_location info \<noteq> LOAD) = Inr tmp"
    by (auto split: option.splits)
  then have tmp: "fresh tmp s" "lowercase_id tmp"
    using new by (auto simp: new_objects_ok_def)
  define e where "e = tmp\<lparr>location := extension_location info\<rparr>"
  define s1 where "s1 = (if write_to_prefs
                     then s\<lparr>extension_prefs := Prefs_UpdateManifest e (extension_prefs s)\<rparr>
                     else s)"
  have lists1: "extensions s1 = extensions s" "disabled_extensions s1 = disabled_extensions s"
    by (simp_all add: s1_def)
  have ok1: "registry_ok s1" using lists1 ok by (rule registry_ok_cong)
  have fr1: "fresh e s1" using tmp(1) by (simp add: fresh_def registered_def lists1 e_def)
  have low1: "lowercase_id e" using tmp(2) by (simp add: lowercase_id_def e_def)
  obtain s2 where s2: "OnExtensionLoaded env e True s1 = Inr s2"
     and lists: "extensions s' = extensions s2" "disabled_extensions s' = disabled_extensions s2"
    using run Inr
    by (auto simp: LoadInstalledExtension_def Let_def e_def s1_def PostTask_def
        split: sum.splits if_splits)
  have "registry_ok s2" using ok1 fr1 low1 s2 by (rule registry_ok_OnExtensionLoaded)
  then show ?thesis using lists registry_ok_cong by blast
qed

subsection \<open>Every operation keeps the registry well-formed\<close>

lemma registry_ok_EnableExtension:
  assumes ok: "registry_ok s"
  shows "registry_ok (EnableExtension eid s)"
proof (cases "GetExtensionByIdInternal eid False True s")
  case None
  then show ?thesis using ok by (simp add: EnableExtension_def Log_def registry_ok_def registered_def)
next
  case (Some e)
  then have e: "e \<in> set (disabled_extensions s)"
    by (auto simp: GetExtensionByIdInternal_def Let_def dest: first_with_id_Some)
  have d: "distinct (map addr (disabled_extensions s))" "distinct (map ext_id (disabled_extensions s))"
    using ok by (auto simp: registry_ok_def registered_def)
  have lists: "extensions (EnableExtension eid s) = extensions s @ [e]"
     "disabled_extensions (EnableExtension eid s)
        = filter (\<lambda>x. ext_id x \<noteq> ext_id e) (disabled_extensions s)"
    using Some erase_ptr_filter[OF d e]
    by (simp_all add: EnableExtension_def Let_def effects)
  have reg: "registered (EnableExtension eid s)
               = extensions s @ [e] @ filter (\<lambda>x. ext_id x \<noteq> ext_id e) (disabled_extensions s)"
    by (simp add: registered_def lists)
  have "distinct (map addr (extensions s @ disabled_extensions s))"
       "distinct (map ext_id (extensions s @ disabled_extensions s))"
       "list_all lowercase_id (extensions s @ disabled_extensions s)"
    using ok by (simp_all add: registry_ok_def registered_def)
  then show ?thesis
    unfolding registry_ok_def reg
    using distinct_map_move_right[of addr "extensions s" "disabled_extensions s" e ext_id]
          distinct_map_move_right[of ext_id "extensions s" "disabled_extensions s" e ext_id] e
    by (auto simp: list_all_iff)
qed

lemma registry_ok_DisableExtension:
  assumes ok: "registry_ok s"
  shows "registry_ok (DisableExtension eid s)"
proof (cases "GetExtensionByIdInternal eid True False s")
  case None
  then show ?thesis using ok by (simp add: DisableExtension_def)
next
  case (Some e)
  then have e: "e \<in> set (extensions s)"
    by (auto simp: GetExtensionByIdInternal_def Let_def split: option.splits dest: first_with_id_Some)
  have d: "distinct (map addr (extensions s))" "distinct (map ext_id (extensions s))"
    using ok by (auto simp: registry_ok_def registered_def)
  have lists: "disabled_extensions (DisableExtension eid s) = disabled_extensions s @ [e]"
     "extensions (DisableExtension eid s)
        = filter (\<lambda>x. ext_id x \<noteq> ext_id e) (extensions s)"
    using Some erase_ptr_filter[OF d e]
    by (simp_all add: DisableExtension_def Let_def effects)
  have reg: "registered (DisableExtension eid s)
               = filter (\<lambda>x. ext_id x \<noteq> ext_id e) (extensions s) @ disabled_extensions s @ [e]"
    by (simp add: registered_def lists)
  have "distinct (map addr (extensions s @ disabled_extensions s))"
       "distinct (map ext_id (extensions s @ disabled_extensions s))"
       "list_all lowercase_id (extensions s @ disabled_extensions s)"
    using ok by (simp_all add: registry_ok_def registered_def)
  then show ?thesis
    unfolding registry_ok_def reg
    using distinct_map_move_left[of addr "extensions s" "disabled_extensions s" e ext_id]
          distinct_map_move_left[of ext_id "extensions s" "disabled_extensions s" e ext_id] e
    by (auto simp: list_all_iff)
qed

lemma registry_ok_UpdateExtensionBlacklist:
  assumes "registry_ok s" and "UpdateExtensionBlacklist env blacklist s = Inr s'"
  shows "registry_ok s'"
proof -
  define s1 where "s1 = s\<lparr>extension_prefs :=
      Prefs_UpdateBlacklist (set (filter (IdIsValid env) blacklist)) (extension_prefs s)\<rparr>"
  have "registry_ok s1"
    using _ _ assms(1) by (rule registry_ok_cong) (simp_all add: s1_def)
  moreover have "\<exists>ids. unload_each ids s1 = Inr s'"
    using assms(2) by (auto simp: UpdateExtensionBlacklist_def Let_def s1_def)
  ultimately show ?thesis using registry_ok_unload_each by blast
qed

lemma registry_ok_UninstallExtension:
  assumes "registry_ok s" and "UninstallExtension eid external_uninstall s = Inr s'"
  shows "registry_ok s'"
proof -
  obtain s1 where s1: "UnloadExtension eid s = Inr s1"
     and lists: "extensions s' = extensions s1" "disabled_extensions s' = disabled_extensions s1"
    using assms(2)
    by (auto simp: UninstallExtension_def Let_def ClearExtensionData_def PostTask_def
        split: option.splits sum.splits if_splits)
  have "registry_ok s1" using assms(1) s1 by (rule registry_ok_UnloadExtension)
  then show ?thesis using lists registry_ok_cong by blast
qed

lemma lists_OnExternalExtensionFound:
  assumes "OnExternalExtensionFound env eid version_string crx_path loc s = Inr s'"
  shows "extensions s' = extensions s \<and> disabled_extensions s' = disabled_extensions s"
  using assms
  by (auto simp: OnExternalExtensionFound_def Let_def Log_def split: option.splits if_splits)

lemma registry_ok_ReloadExtension:
  assumes ok: "registry_ok s" and new: "new_objects_ok env s"
      and run: "ReloadExtension env eid s = Inr s'"
  shows "registry_ok s'"
proof -
  obtain reload_path s3 where first:
    "(case GetExtensionById eid False s of
              Some current_extension \<Rightarrow>
                (let s1 = (case GetBackgroundHostForExtension env current_extension of
                             None \<Rightarrow> s
                           | Some host \<Rightarrow>
                               (let devtools_cookie = DetachClientHost env host in
                                if devtools_cookie \<ge> 0
                                then s\<lparr>orphaned_dev_tools :=
                                         (orphaned_dev_tools s)(eid \<mapsto> devtools_cookie)\<rparr>
                                else s))
                 in case UnloadExtension eid s1 of
                      Inl err \<Rightarrow> Inl err
                    | Inr s2 \<Rightarrow> Inr (path current_extension, s2))
            | None \<Rightarrow>
                (case unloaded_extension_paths s eid of
                   Some p \<Rightarrow> Inr (p, s)
                 | None \<Rightarrow> Inr ([], s\<lparr>unloaded_extension_paths :=
                                        (unloaded_extension_paths s)(eid \<mapsto> [])\<rparr>)))
      = Inr (reload_path, s3)"
    using run by (auto simp: ReloadExtension_def split: sum.splits)
  have ok3: "registry_ok s3 \<and> set (registered s3) \<subseteq> set (registered s)"
  proof (cases "GetExtensionById eid False s")
    case None
    then have "extensions s3 = extensions s" "disabled_extensions s3 = disabled_extensions s"
      using first by (auto split: option.splits)
    then show ?thesis using ok registry_ok_cong registered_cong by (metis subset_refl)
  next
    case (Some cur)
    then obtain s1 where s1: "UnloadExtension eid s1 = Inr s3"
       "extensions s1 = extensions s" "disabled_extensions s1 = disabled_extensions s"
      using first by (auto simp: Let_def split: option.splits sum.splits if_splits)
    have ok1: "registry_ok s1" using s1(2,3) ok by (rule registry_ok_cong)
    from UnloadExtension_result[OF ok1 s1(1)]
    have "set (registered s3) \<subseteq> set (registered s1)" by (auto simp: registered_def)
    moreover have "registered s1 = registered s" using s1(2,3) by (rule registered_cong)
    ultimately show ?thesis using registry_ok_UnloadExtension[OF ok1 s1(1)] by simp
  qed
  have new3: "new_objects_ok env s3"
    unfolding new_objects_ok_def
  proof (intro allI impI)
    fix p m k e assume "InitFromValue env p m k = Inr e"
    then have "fresh e s \<and> lowercase_id e" using new by (simp add: new_objects_ok_def)
    then show "fresh e s3 \<and> lowercase_id e" using ok3 fresh_subset by blast
  qed
  have "s' = LoadExtension reload_path s3
        \<or> (\<exists>info. LoadInstalledExtension env info False s3 = Inr s')"
    using run first by (auto simp: ReloadExtension_def split: option.splits if_splits)
  then show ?thesis
  proof
    assume "s' = LoadExtension reload_path s3"
    then have "extensions s' = extensions s3" "disabled_extensions s' = disabled_extensions s3"
      by (simp_all add: LoadExtension_def PostTask_def)
    then show ?thesis using ok3 registry_ok_cong by blast
  next
    assume "\<exists>info. LoadInstalledExtension env info False s3 = Inr s'"
    then show ?thesis using ok3 new3 registry_ok_LoadInstalledExtension by blast
  qed
qed

lemma reachable_registry_ok: "reachable s \<Longrightarrow> registry_ok s"
proof (induction rule: reachable.induct)
  case (constructed s)
  then show ?case by (simp add: registry_ok_def registered_def)
next
  case (other_members s s')
  then show ?case using registry_ok_cong by blast
next
  case (after_InstallExtension s file_path)
  then show ?case by (simp add: registry_ok_def registered_def InstallExtension_def)
next
  case (after_UpdateExtension s eid file_path download_url)
  then show ?case
    by (simp add: registry_ok_def registered_def UpdateExtension_def Let_def PostTask_def Log_def)
next
  case (after_AddPendingExtension s eid u v theme silently)
  then show ?case
    by (simp add: registry_ok_def registered_def AddPendingExtension_def
        AddPendingExtensionInternal_def)
next
  case (after_EnableExtension s eid)
  then show ?case by (simp add: registry_ok_EnableExtension)
next
  case (after_DisableExtension s eid)
  then show ?case by (simp add: registry_ok_DisableExtension)
next
  case (after_UnloadAllExtensions s)
  then show ?case by (auto simp: registry_ok_def registered_def UnloadAllExtensions_def)
next
  case (after_ReportExtensionLoadError s file_path error t be_noisy)
  then show ?case
    by (simp add: registry_ok_def registered_def ReportExtensionLoadError_def Notify_def Let_def)
next
  case (after_UnloadExtension s eid s')
  then show ?case using registry_ok_UnloadExtension by blast
next
  case (after_UninstallExtension s eid external_uninstall s')
  then show ?case using registry_ok_UninstallExtension by blast
next
  case (after_UpdateExtensionBlacklist s env blacklist s')
  then show ?case using registry_ok_UpdateExtensionBlacklist by blast
next
  case (after_OnExternalExtensionFound s env eid version_string crx_path loc s')
  then show ?case using lists_OnExternalExtensionFound registry_ok_cong by blast
next
  case (after_OnExtensionLoaded s e env allow s')
  then show ?case using registry_ok_OnExtensionLoaded by blast
next
  case (after_OnExtensionInstalled s e env allow s')
  then show ?case using registry_ok_OnExtensionInstalled by blast
next
  case (after_LoadInstalledExtension s env info write_to_prefs s')
  then show ?case using registry_ok_LoadInstalledExtension by blast
next
  case (after_ReloadExtension s env eid s')
  then show ?case using registry_ok_ReloadExtension by blast
qed

subsection \<open>Evaluating the examples\<close>

lemmas example_defs = example_service_def example_prefs_def example_extension_def example_env_def
  StringToLowerASCII_def ToLowerASCII_def

lemma example_extension_simps:
  "addr (example_extension a i v) = a"
  "ext_id (example_extension a i v) = i"
  "version (example_extension a i v) = v"
  "path (example_extension a i v) = ''/ext/'' @ i"
  "location (example_extension a i v) = INTERNAL"
  "IsTheme (example_extension a i v) = False"
  "api_permissions (example_extension a i v) = []"
  "being_upgraded (example_extension a i v) = False"
  "(example_extension a i v)\<lparr>being_upgraded := False\<rparr> = example_extension a i v"
  "(example_extension a i v = example_extension a' i' v') = (a = a' \<and> i = i' \<and> v = v')"
  by (auto simp: example_extension_def)

lemma example_service_simps:
  "extensions example_service = []"
  "disabled_extensions example_service = []"
  "pending_extensions example_service = Map.empty"
  "unloaded_extension_paths example_service = Map.empty"
  "extension_prefs example_service = example_prefs"
  "extensions_enabled example_service = True"
  "notifications example_service = []"
  "posted_tasks example_service = []"
  "diagnostics example_service = []"
  "error_reports example_service = []"
  "installers example_service = []"
  "profile example_service = Some \<lparr>IsOffTheRecord = False, has_request_context = True\<rparr>"
  by (simp_all add: example_service_def)

lemma example_prefs_simps:
  "pref_state example_prefs = Map.empty"
  "pref_installed example_prefs = Map.empty"
  "pref_escalated example_prefs = Map.empty"
  "Prefs_GetExtensionState i example_prefs = ENABLED"
  "Prefs_GetInstalledExtensionInfo i example_prefs = None"
  by (simp_all add: example_prefs_def Prefs_GetExtensionState_def Prefs_GetInstalledExtensionInfo_def)

lemma example_env_simps:
  "CompareTo example_env = example_CompareTo"
  "GetVersionFromString example_env = Some"
  "IsPrivilegeIncrease example_env old new
     = (\<not> set (api_permissions new) \<subseteq> set (api_permissions old))"
  "IdIsValid example_env i = True"
  "AbsolutePath example_env p = p"
  "LoadExtension_from_disk example_env ''/ext/a'' = Inr (example_extension 7 ''a'' ''1.0'')"
  by (simp_all add: example_env_def)

lemma lower_examples:
  "StringToLowerASCII ''a'' = ''a''"
  "StringToLowerASCII ''x'' = ''x''"
  "StringToLowerASCII ''bad1'' = ''bad1''"
  "StringToLowerASCII ''good1'' = ''good1''"
  by (simp_all add: StringToLowerASCII_def ToLowerASCII_def)

lemmas ex = example_extension_simps example_service_simps example_prefs_simps example_env_simps
  lower_examples unpacked_a_def registry_ok_def registered_def
  fresh_def lowercase_id_def load_permitted_def GetExtensionByIdInternal_def Let_def

section \<open>The example states are reachable\<close>

lemma reachable_one_enabled:
  assumes "lowercase_id e" and "being_upgraded e = False"
      and "extensions s = [e]" and "disabled_extensions s = []"
  shows "reachable s"
proof -
  define s0 where "s0 = s\<lparr>extensions := [], extensions_enabled := True,
                          extension_prefs := (extension_prefs s)\<lparr>pref_state := Map.empty\<rparr>\<rparr>"
  have r0: "reachable s0" by (rule reachable.constructed) (simp_all add: s0_def assms)
  have fr: "fresh e s0" by (simp add: fresh_def registered_def s0_def assms)
  have permitted: "load_permitted e s0" by (simp add: load_permitted_def s0_def)
  have none: "GetExtensionByIdInternal (ext_id e) True True s0 = None"
    by (simp add: lookup_None registered_def s0_def assms)
  have st: "Prefs_GetExtensionState (ext_id e) (extension_prefs s0) = ENABLED"
    by (simp add: Prefs_GetExtensionState_def s0_def)
  have lists0: "extensions s0 = []" "disabled_extensions s0 = []"
    by (simp_all add: s0_def assms)
  from OnExtensionLoaded_new[OF fr permitted none, of example_env True]
  obtain s1 where run: "OnExtensionLoaded example_env e True s0 = Inr s1"
     and l1: "extensions s1 = extensions s0
                 @ (if Prefs_GetExtensionState (ext_id e) (extension_prefs s0) = ENABLED
                    then [e\<lparr>being_upgraded := False\<rparr>] else [])"
             "disabled_extensions s1 = disabled_extensions s0
                 @ (if Prefs_GetExtensionState (ext_id e) (extension_prefs s0) = DISABLED
                    then [e\<lparr>being_upgraded := False\<rparr>] else [])"
    by blast
  have s1: "OnExtensionLoaded example_env e True s0 = Inr s1"
     "extensions s1 = [e\<lparr>being_upgraded := False\<rparr>]" "disabled_extensions s1 = []"
    using run l1 by (simp_all add: st lists0)
  have r1: "reachable s1" using r0 fr assms(1) s1(1) by (rule reachable.after_OnExtensionLoaded)
  have "e\<lparr>being_upgraded := False\<rparr> = e" using assms(2) by (cases e) simp
  then show ?thesis
    using r1 s1 assms(3,4) by (auto intro: reachable.other_members)
qed

lemma reachable_one_disabled:
  assumes "lowercase_id e" and "being_upgraded e = False"
      and "extensions s = []" and "disabled_extensions s = [e]"
  shows "reachable s"
proof -
  define s0 where "s0 = s\<lparr>disabled_extensions := [], extensions_enabled := True,
                          extension_prefs := (extension_prefs s)\<lparr>pref_state := [ext_id e \<mapsto> DISABLED]\<rparr>\<rparr>"
  have r0: "reachable s0" by (rule reachable.constructed) (simp_all add: s0_def assms)
  have fr: "fresh e s0" by (simp add: fresh_def registered_def s0_def assms)
  have permitted: "load_permitted e s0" by (simp add: load_permitted_def s0_def)
  have none: "GetExtensionByIdInternal (ext_id e) True True s0 = None"
    by (simp add: lookup_None registered_def s0_def assms)
  have st: "Prefs_GetExtensionState (ext_id e) (extension_prefs s0) = DISABLED"
    by (simp add: Prefs_GetExtensionState_def s0_def)
  have lists0: "extensions s0 = []" "disabled_extensions s0 = []"
    by (simp_all add: s0_def assms)
  from OnExtensionLoaded_new[OF fr permitted none, of example_env True]
  obtain s1 where run: "OnExtensionLoaded example_env e True s0 = Inr s1"
     and l1: "extensions s1 = extensions s0
                 @ (if Prefs_GetExtensionState (ext_id e) (extension_prefs s0) = ENABLED
                    then [e\<lparr>being_upgraded := False\<rparr>] else [])"
             "disabled_extensions s1 = disabled_extensions s0
                 @ (if Prefs_GetExtensionState (ext_id e) (extension_prefs s0) = DISABLED
                    then [e\<lparr>being_upgraded := False\<rparr>] else [])"
    by blast
  have s1: "OnExtensionLoaded example_env e True s0 = Inr s1"
     "extensions s1 = []" "disabled_extensions s1 = [e\<lparr>being_upgraded := False\<rparr>]"
    using run l1 by (simp_all add: st lists0)
  have r1: "reachable s1" using r0 fr assms(1) s1(1) by (rule reachable.after_OnExtensionLoaded)
  have "e\<lparr>being_upgraded := False\<rparr> = e" using assms(2) by (cases e) simp
  then show ?thesis
    using r1 s1 assms(3,4) by (auto intro: reachable.other_members)
qed

lemma reachable_extensions_disabled_service: "reachable extensions_disabled_service"
  by (rule reachable_one_enabled[of unpacked_a]) (simp_all add: ex extensions_disabled_service_def)

lemma reachable_disabled_bad1_service: "reachable disabled_bad1_service"
  by (rule reachable_one_disabled[of "example_extension 1 ''bad1'' ''1.0''"])
     (simp_all add: ex disabled_bad1_service_def)

lemma reachable_pending_theme_service: "reachable pending_theme_service"
  by (rule reachable_one_enabled[of "example_extension 1 ''a'' ''1.0''"])
     (simp_all add: ex pending_theme_service_def)

section \<open>The claims\<close>

subsection \<open>C1: upgrade arbitration\<close>

text \<open>
  Claim C1, as the code has it. Let a record \<open>old\<close> be registered (enabled or disabled)
  in a well-formed registry under the identifier of a newly loaded extension \<open>e\<close> of
  strictly greater version; let \<open>e\<close> be a new object (none of the registered records)
  with a lower-case identifier, and let the load be permitted (extensions enabled, or
  \<open>e\<close> a theme, unpacked or external). Then \<^verbatim>\<open>OnExtensionLoaded\<close> returns; in every
  case the old record is unloaded: each list keeps exactly its records of other
  identifiers, in their order, and the unloaded-path map remembers the old path. The
  rest depends on the arbitration.

  \<^item> If the caller allowed a privilege increase or the new permissions are no increase,
    the preference store is as before, and the persisted state of the identifier places
    the new record: enabled, it is appended to the enabled list and the disabled list
    gains nothing; disabled, it is appended to the disabled list and the enabled list
    gains nothing; in both cases exactly one record is registered under the identifier,
    and its version is the new version. For any other persisted state neither list
    gains a record, so none is registered under the identifier.
  \<^item> Otherwise the disabled state and then the permissions-escalated flag are persisted
    for the identifier, the new record is appended to the disabled list, and the
    enabled list gains nothing; again exactly one record is registered under the
    identifier, and its version is the new version.
\<close>
theorem OnExtensionLoaded_upgrade_arbitration:
  assumes "registry_ok s" and "fresh e s" and "lowercase_id e"
      and "load_permitted e s"
      and "GetExtensionByIdInternal (ext_id e) True True s = Some old"
      and "CompareTo env (version e) (version old) > 0"
  shows "\<exists>s'. OnExtensionLoaded env e allow s = Inr s'
          \<and> unloaded_extension_paths s' = (unloaded_extension_paths s)(ext_id e \<mapsto> path old)
          \<and> pending_extensions s' = pending_extensions s
          \<and> (if allow \<or> \<not> IsPrivilegeIncrease env old e then
               extension_prefs s' = extension_prefs s
               \<and> (case Prefs_GetExtensionState (ext_id e) (extension_prefs s) of
                    ENABLED \<Rightarrow>
                      extensions s' = filter (\<lambda>x. ext_id x \<noteq> ext_id e) (extensions s)
                                        @ [e\<lparr>being_upgraded := False\<rparr>]
                      \<and> disabled_extensions s'
                          = filter (\<lambda>x. ext_id x \<noteq> ext_id e) (disabled_extensions s)
                      \<and> filter (\<lambda>x. ext_id x = ext_id e) (registered s')
                          = [e\<lparr>being_upgraded := False\<rparr>]
                      \<and> map version (filter (\<lambda>x. ext_id x = ext_id e) (registered s'))
                          = [version e]
                  | DISABLED \<Rightarrow>
                      extensions s' = filter (\<lambda>x. ext_id x \<noteq> ext_id e) (extensions s)
                      \<and> disabled_extensions s'
                          = filter (\<lambda>x. ext_id x \<noteq> ext_id e) (disabled_extensions s)
                              @ [e\<lparr>being_upgraded := False\<rparr>]
                      \<and> filter (\<lambda>x. ext_id x = ext_id e) (registered s')
                          = [e\<lparr>being_upgraded := False\<rparr>]
                      \<and> map version (filter (\<lambda>x. ext_id x = ext_id e) (registered s'))
                          = [version e]
                  | OTHER_STATE \<Rightarrow>
                      extensions s' = filter (\<lambda>x. ext_id x \<noteq> ext_id e) (extensions s)
                      \<and> disabled_extensions s'
                          = filter (\<lambda>x. ext_id x \<noteq> ext_id e) (disabled_extensions s)
                      \<and> filter (\<lambda>x. ext_id x = ext_id e) (registered s') = [])
             else
               extension_prefs s' = Prefs_SetDidExtensionEscalatePermissions e True
                                      (Prefs_SetExtensionState e DISABLED (extension_prefs s))
               \<and> pref_escalated (extension_prefs s') (ext_id e) = Some True
               \<and> Prefs_GetExtensionState (ext_id e) (extension_prefs s') = DISABLED
               \<and> extensions s' = filter (\<lambda>x. ext_id x \<noteq> ext_id e) (extensions s)
               \<and> disabled_extensions s'
                   = filter (\<lambda>x. ext_id x \<noteq> ext_id e) (disabled_extensions s)
                       @ [e\<lparr>being_upgraded := False\<rparr>]
               \<and> filter (\<lambda>x. ext_id x = ext_id e) (registered s')
                   = [e\<lparr>being_upgraded := False\<rparr>]
               \<and> map version (filter (\<lambda>x. ext_id x = ext_id e) (registered s'))
                   = [version e])"
proof -
  from OnExtensionLoaded_upgrade[OF assms, of allow]
  obtain s' where s': "OnExtensionLoaded env e allow s = Inr s'"
    and ext: "extensions s' = filter (\<lambda>x. ext_id x \<noteq> ext_id e) (extensions s)
                @ (if Prefs_GetExtensionState (ext_id e)
                        (if allow \<or> \<not> IsPrivilegeIncrease env old e then extension_prefs s
                         else Prefs_SetDidExtensionEscalatePermissions e True
                                (Prefs_SetExtensionState e DISABLED (extension_prefs s))) = ENABLED
                   then [e\<lparr>being_upgraded := False\<rparr>] else [])"
    and dis: "disabled_extensions s' = filter (\<lambda>x. ext_id x \<noteq> ext_id e) (disabled_extensions s)
                @ (if Prefs_GetExtensionState (ext_id e)
                        (if allow \<or> \<not> IsPrivilegeIncrease env old e then extension_prefs s
                         else Prefs_SetDidExtensionEscalatePermissions e True
                                (Prefs_SetExtensionState e DISABLED (extension_prefs s))) = DISABLED
                   then [e\<lparr>being_upgraded := False\<rparr>] else [])"
    and prefs: "extension_prefs s' =
                  (if allow \<or> \<not> IsPrivilegeIncrease env old e then extension_prefs s
                   else Prefs_SetDidExtensionEscalatePermissions e True
                          (Prefs_SetExtensionState e DISABLED (extension_prefs s)))"
    and pend: "pending_extensions s' = pending_extensions s"
    and unl: "unloaded_extension_paths s' = (unloaded_extension_paths s)(ext_id e \<mapsto> path old)"
    by blast
  show ?thesis
  proof (cases "allow \<or> \<not> IsPrivilegeIncrease env old e")
    case True
    have p: "extension_prefs s' = extension_prefs s" using prefs True by simp
    have "case Prefs_GetExtensionState (ext_id e) (extension_prefs s) of
            ENABLED \<Rightarrow>
              extensions s' = filter (\<lambda>x. ext_id x \<noteq> ext_id e) (extensions s)
                                @ [e\<lparr>being_upgraded := False\<rparr>]
              \<and> disabled_extensions s'
                  = filter (\<lambda>x. ext_id x \<noteq> ext_id e) (disabled_extensions s)
              \<and> filter (\<lambda>x. ext_id x = ext_id e) (registered s')
                  = [e\<lparr>being_upgraded := False\<rparr>]
              \<and> map version (filter (\<lambda>x. ext_id x = ext_id e) (registered s'))
                  = [version e]
          | DISABLED \<Rightarrow>
              extensions s' = filter (\<lambda>x. ext_id x \<noteq> ext_id e) (extensions s)
              \<and> disabled_extensions s'
                  = filter (\<lambda>x. ext_id x \<noteq> ext_id e) (disabled_extensions s)
                      @ [e\<lparr>being_upgraded := False\<rparr>]
              \<and> filter (\<lambda>x. ext_id x = ext_id e) (registered s')
                  = [e\<lparr>being_upgraded := False\<rparr>]
              \<and> map version (filter (\<lambda>x. ext_id x = ext_id e) (registered s'))
                  = [version e]
          | OTHER_STATE \<Rightarrow>
              extensions s' = filter (\<lambda>x. ext_id x \<noteq> ext_id e) (extensions s)
              \<and> disabled_extensions s'
                  = filter (\<lambda>x. ext_id x \<noteq> ext_id e) (disabled_extensions s)
              \<and> filter (\<lambda>x. ext_id x = ext_id e) (registered s') = []"
      using ext dis True
      by (cases "Prefs_GetExtensionState (ext_id e) (extension_prefs s)")
         (simp_all add: registered_def filter_eq_filter_neq)
    then show ?thesis using s' unl pend p True by auto
  next
    case False
    have st: "Prefs_GetExtensionState (ext_id e)
                (Prefs_SetDidExtensionEscalatePermissions e True
                   (Prefs_SetExtensionState e DISABLED (extension_prefs s))) = DISABLED"
      by (simp add: Prefs_GetExtensionState_def Prefs_SetDidExtensionEscalatePermissions_def
          Prefs_SetExtensionState_def)
    have esc: "pref_escalated (Prefs_SetDidExtensionEscalatePermissions e True
                   (Prefs_SetExtensionState e DISABLED (extension_prefs s))) (ext_id e) = Some True"
      by (simp add: Prefs_SetDidExtensionEscalatePermissions_def)
    have p: "extension_prefs s' = Prefs_SetDidExtensionEscalatePermissions e True
                                      (Prefs_SetExtensionState e DISABLED (extension_prefs s))"
      using prefs False by simp
    have l: "extensions s' = filter (\<lambda>x. ext_id x \<noteq> ext_id e) (extensions s)"
         "disabled_extensions s' = filter (\<lambda>x. ext_id x \<noteq> ext_id e) (disabled_extensions s)
                       @ [e\<lparr>being_upgraded := False\<rparr>]"
      using ext dis False st by simp_all
    have f: "filter (\<lambda>x. ext_id x = ext_id e) (registered s') = [e\<lparr>being_upgraded := False\<rparr>]"
      by (simp add: registered_def l filter_eq_filter_neq)
    have "pref_escalated (extension_prefs s') (ext_id e) = Some True"
         "Prefs_GetExtensionState (ext_id e) (extension_prefs s') = DISABLED"
      using st esc by (simp_all add: p)
    then show ?thesis using s' unl pend p l f False by simp
  qed
qed

theorem OnExtensionLoaded_upgrade_arbitration_witness:
  "(case OnExtensionLoaded example_env (example_extension 2 ''a'' ''2.0'') False
           (example_service\<lparr>extensions := [example_extension 1 ''a'' ''1.0'']\<rparr>) of
      Inl err \<Rightarrow> False
    | Inr s' \<Rightarrow> extensions s' = [example_extension 2 ''a'' ''2.0'']
        \<and> disabled_extensions s' = []
        \<and> extension_prefs s' = example_prefs
        \<and> unloaded_extension_paths s' = [''a'' \<mapsto> ''/ext/a''])"
proof -
  let ?S = "example_service\<lparr>extensions := [example_extension 1 ''a'' ''1.0'']\<rparr>"
  let ?e = "example_extension 2 ''a'' ''2.0''"
  let ?old = "example_extension 1 ''a'' ''1.0''"
  have h1: "registry_ok ?S" by (simp add: ex)
  have h2: "fresh ?e ?S" by (simp add: ex)
  have h3: "lowercase_id ?e" by (simp add: ex)
  have h4: "load_permitted ?e ?S" by (simp add: ex)
  have h5: "GetExtensionByIdInternal (ext_id ?e) True True ?S = Some ?old" by (simp add: ex)
  have h6: "CompareTo example_env (version ?e) (version ?old) > 0" by (simp add: ex)
  have silent: "False \<or> \<not> IsPrivilegeIncrease example_env ?old ?e" by (simp add: ex)
  have st: "Prefs_GetExtensionState (ext_id ?e) (extension_prefs ?S) = ENABLED"
    by (simp add: ex)
  from OnExtensionLoaded_upgrade_arbitration[OF h1 h2 h3 h4 h5 h6, of False] silent st
  obtain s' where "OnExtensionLoaded example_env ?e False ?S = Inr s'"
    "extensions s' = filter (\<lambda>x. ext_id x \<noteq> ext_id ?e) (extensions ?S)
                       @ [?e\<lparr>being_upgraded := False\<rparr>]"
    "disabled_extensions s' = filter (\<lambda>x. ext_id x \<noteq> ext_id ?e) (disabled_extensions ?S)"
    "extension_prefs s' = extension_prefs ?S"
    "unloaded_extension_paths s' = (unloaded_extension_paths ?S)(ext_id ?e \<mapsto> path ?old)"
    by auto
  then show ?thesis by (simp add: example_extension_simps example_service_simps)
qed

text \<open>
  The claim as the spec states it, for every registered record and every newer load,
  fails where the load is not permitted: with extensions disabled, an unpacked extension
  \<open>''a''\<close> of version 1.0 registered, and version 2.0 of \<open>''a''\<close> loaded from an ordinary
  install, \<^verbatim>\<open>OnExtensionLoaded\<close> returns the state as it was; the registered record is
  still the old one.
\<close>
theorem OnExtensionLoaded_upgrade_not_permitted:
  "reachable extensions_disabled_service
   \<and> GetExtensionByIdInternal ''a'' True True extensions_disabled_service = Some unpacked_a
   \<and> CompareTo example_env ''2.0'' (version unpacked_a) > 0
   \<and> OnExtensionLoaded example_env (example_extension 2 ''a'' ''2.0'') True
        extensions_disabled_service = Inr extensions_disabled_service
   \<and> registered extensions_disabled_service = [unpacked_a]
   \<and> version unpacked_a = ''1.0''"
  using reachable_extensions_disabled_service
  by (simp add: ex extensions_disabled_service_def OnExtensionLoaded_def IsExternalLocation_def
      example_extension_def)

subsection \<open>C2: blacklist update\<close>

text \<open>
  Claim C2, as the code has it. In a well-formed registry \<^verbatim>\<open>UpdateExtensionBlacklist\<close>
  returns; the set of the valid identifiers of the list is persisted as the blacklist;
  every record of the enabled list whose identifier is in that set is unloaded and the
  other enabled records stay, in their order; the disabled list is not scanned and
  stays as it is.
\<close>
theorem UpdateExtensionBlacklist_unloads_enabled:
  assumes "registry_ok s"
  shows "\<exists>s'. UpdateExtensionBlacklist env blacklist s = Inr s'
           \<and> pref_blacklist (extension_prefs s') = {b \<in> set blacklist. IdIsValid env b}
           \<and> extensions s' =
               filter (\<lambda>e. ext_id e \<notin> {b \<in> set blacklist. IdIsValid env b}) (extensions s)
           \<and> disabled_extensions s' = disabled_extensions s"
proof -
  define B where "B = set (filter (IdIsValid env) blacklist)"
  define s1 where "s1 = s\<lparr>extension_prefs := Prefs_UpdateBlacklist B (extension_prefs s)\<rparr>"
  define ids where "ids = map ext_id (filter (\<lambda>e. ext_id e \<in> B) (extensions s1))"
  have B: "B = {b \<in> set blacklist. IdIsValid env b}" by (auto simp: B_def)
  have lists1: "extensions s1 = extensions s" "disabled_extensions s1 = disabled_extensions s"
    by (simp_all add: s1_def)
  have ok1: "registry_ok s1" using lists1 assms by (rule registry_ok_cong)
  have "distinct (map ext_id (extensions s))"
    using assms by (simp add: registry_ok_def registered_def)
  then have d: "distinct ids" by (simp add: ids_def lists1 distinct_map_filter)
  have sub: "set ids \<subseteq> ext_id ` set (extensions s1)" by (auto simp: ids_def)
  from unload_each_enabled[OF ok1 d sub] obtain s' where s':
     "unload_each ids s1 = Inr s'"
     "extensions s' = filter (\<lambda>e. ext_id e \<notin> set ids) (extensions s1)"
     "disabled_extensions s' = disabled_extensions s1"
     "extension_prefs s' = extension_prefs s1"
    by blast
  have run: "UpdateExtensionBlacklist env blacklist s = unload_each ids s1"
    by (simp add: UpdateExtensionBlacklist_def Let_def B_def s1_def ids_def)
  have "filter (\<lambda>e. ext_id e \<notin> set ids) (extensions s) = filter (\<lambda>e. ext_id e \<notin> B) (extensions s)"
    by (rule filter_cong) (auto simp: ids_def lists1)
  then show ?thesis
    using s' run by (simp add: lists1 B[symmetric]) (simp add: s1_def Prefs_UpdateBlacklist_def)
qed

theorem UpdateExtensionBlacklist_unloads_enabled_witness:
  "(case UpdateExtensionBlacklist example_env [''bad1'']
           (example_service\<lparr>extensions := [example_extension 1 ''bad1'' ''1.0'',
                                             example_extension 2 ''good1'' ''1.0'']\<rparr>) of
      Inl err \<Rightarrow> False
    | Inr s' \<Rightarrow> extensions s' = [example_extension 2 ''good1'' ''1.0'']
         \<and> disabled_extensions s' = []
         \<and> pref_blacklist (extension_prefs s') = {''bad1''})"
proof -
  let ?S = "example_service\<lparr>extensions := [example_extension 1 ''bad1'' ''1.0'',
                                             example_extension 2 ''good1'' ''1.0'']\<rparr>"
  have h1: "registry_ok ?S" by (simp add: ex)
  from UpdateExtensionBlacklist_unloads_enabled[OF h1, of example_env "[''bad1'']"]
  obtain s' where "UpdateExtensionBlacklist example_env [''bad1''] ?S = Inr s'"
     "pref_blacklist (extension_prefs s') = {b \<in> set [''bad1'']. IdIsValid example_env b}"
     "extensions s' = filter (\<lambda>e. ext_id e \<notin> {b \<in> set [''bad1'']. IdIsValid example_env b})
                        (extensions ?S)"
     "disabled_extensions s' = disabled_extensions ?S"
    by blast
  then show ?thesis by (simp add: ex)
qed

text \<open>
  The claim as the spec states it, for the disabled list as well, fails: with the valid
  identifier \<open>''bad1''\<close> in the blacklist and extension \<open>''bad1''\<close> in the disabled list, the
  update persists the blacklist and leaves the record in the disabled list.
\<close>
theorem UpdateExtensionBlacklist_keeps_disabled:
  "reachable disabled_bad1_service
   \<and> IdIsValid example_env ''bad1''
   \<and> disabled_extensions disabled_bad1_service = [example_extension 1 ''bad1'' ''1.0'']
   \<and> (case UpdateExtensionBlacklist example_env [''bad1''] disabled_bad1_service of
        Inl err \<Rightarrow> False
      | Inr s' \<Rightarrow> disabled_extensions s' = [example_extension 1 ''bad1'' ''1.0'']
           \<and> pref_blacklist (extension_prefs s') = {''bad1''})"
  using reachable_disabled_bad1_service
  by (simp add: ex disabled_bad1_service_def UpdateExtensionBlacklist_def Prefs_UpdateBlacklist_def)

subsection \<open>C3: a pending entry of the other kind\<close>

text \<open>
  Claim C3. When a pending entry exists for the identifier of an installed extension and
  its theme flag differs from the extension's, \<^verbatim>\<open>OnExtensionInstalled\<close> returns with the
  state as it was but for two things: the deletion of the extension's directory
  (recursive) is posted, and a warning is logged. The enabled list, the disabled list
  and the preference store are unchanged, and no notification is sent.
\<close>
theorem OnExtensionInstalled_theme_mismatch:
  assumes "pending_extensions s (ext_id extension) = Some info"
      and "is_theme info \<noteq> IsTheme extension"
  shows "OnExtensionInstalled env extension allow_privilege_increase s =
           Inr (s\<lparr>posted_tasks := posted_tasks s @ [Task_DeleteFileHelper (path extension) True],
                  diagnostics := diagnostics s @
                    [LOG_WARNING (''Not installing pending extension '' @ ext_id extension
                      @ '' with is_theme = '' @ bool_text (IsTheme extension)
                      @ ''; expected is_theme = '' @ bool_text (is_theme info))]\<rparr>)"
  using assms by (simp add: OnExtensionInstalled_def PostTask_def Log_def)

theorem OnExtensionInstalled_theme_mismatch_witness:
  "OnExtensionInstalled example_env ((example_extension 1 ''abc123'' ''1.0'')\<lparr>IsTheme := True\<rparr>) True
     (example_service\<lparr>pending_extensions :=
        [''abc123'' \<mapsto> \<lparr>update_url = ''http://example/x.crx'', pending_version = ''1.0'',
                           is_theme = False, install_silently = False\<rparr>]\<rparr>)
   = Inr (example_service\<lparr>pending_extensions :=
        [''abc123'' \<mapsto> \<lparr>update_url = ''http://example/x.crx'', pending_version = ''1.0'',
                           is_theme = False, install_silently = False\<rparr>],
        posted_tasks := [Task_DeleteFileHelper ''/ext/abc123'' True],
        diagnostics := [LOG_WARNING
          ''Not installing pending extension abc123 with is_theme = 1; expected is_theme = 0'']\<rparr>)"
  using OnExtensionInstalled_theme_mismatch[of "example_service\<lparr>pending_extensions :=
        [''abc123'' \<mapsto> \<lparr>update_url = ''http://example/x.crx'', pending_version = ''1.0'',
                           is_theme = False, install_silently = False\<rparr>]\<rparr>"
        "(example_extension 1 ''abc123'' ''1.0'')\<lparr>IsTheme := True\<rparr>"
        "\<lparr>update_url = ''http://example/x.crx'', pending_version = ''1.0'',
                           is_theme = False, install_silently = False\<rparr>" example_env True]
  by (simp add: example_defs bool_text_def)

subsection \<open>C4: a load of the same or an older version\<close>

text \<open>
  Claim C4, as the code has it. When a record is registered under the identifier of a
  loaded extension whose version is not greater, \<^verbatim>\<open>OnExtensionLoaded\<close> returns with both
  lists and the preference store unchanged. Where the load is permitted (extensions
  enabled, or the extension a theme, unpacked or external) it sends the overinstall error
  notification and logs the duplicate load; where it is not permitted it reports
  nothing.
\<close>
theorem OnExtensionLoaded_stale_version:
  assumes "GetExtensionByIdInternal (ext_id e) True True s = Some old"
      and "CompareTo env (version e) (version old) \<le> 0"
  shows "\<exists>s'. OnExtensionLoaded env e allow s = Inr s'
           \<and> extensions s' = extensions s \<and> disabled_extensions s' = disabled_extensions s
           \<and> extension_prefs s' = extension_prefs s
           \<and> notifications s' = notifications s @
               (if load_permitted e s
                then [(EXTENSION_OVERINSTALL_ERROR,
                       StringDetails (''Duplicate extension load attempt: '' @ ext_id e))]
                else [])
           \<and> diagnostics s' = diagnostics s @
               (if load_permitted e s
                then [LOG_WARNING (''Duplicate extension load attempt: '' @ ext_id e)]
                else [])"
  using OnExtensionLoaded_duplicate[OF assms] by blast

theorem OnExtensionLoaded_stale_version_witness:
  "(case OnExtensionLoaded example_env (example_extension 2 ''a'' ''1.0'') True
           (example_service\<lparr>extensions := [example_extension 1 ''a'' ''1.0'']\<rparr>) of
      Inl err \<Rightarrow> False
    | Inr s' \<Rightarrow> extensions s' = [example_extension 1 ''a'' ''1.0''] \<and> disabled_extensions s' = []
         \<and> notifications s' = [(EXTENSION_OVERINSTALL_ERROR,
                                  StringDetails ''Duplicate extension load attempt: a'')]
         \<and> diagnostics s' = [LOG_WARNING ''Duplicate extension load attempt: a''])"
proof -
  let ?S = "example_service\<lparr>extensions := [example_extension 1 ''a'' ''1.0'']\<rparr>"
  let ?e = "example_extension 2 ''a'' ''1.0''"
  let ?old = "example_extension 1 ''a'' ''1.0''"
  have h1: "GetExtensionByIdInternal (ext_id ?e) True True ?S = Some ?old" by (simp add: ex)
  have h2: "CompareTo example_env (version ?e) (version ?old) \<le> 0" by (simp add: ex)
  have g: "load_permitted ?e ?S" by (simp add: ex)
  from OnExtensionLoaded_stale_version[OF h1 h2, of True] g
  obtain s' where "OnExtensionLoaded example_env ?e True ?S = Inr s'"
    "extensions s' = extensions ?S" "disabled_extensions s' = disabled_extensions ?S"
    "notifications s' = notifications ?S @ [(EXTENSION_OVERINSTALL_ERROR,
                       StringDetails (''Duplicate extension load attempt: '' @ ext_id ?e))]"
    "diagnostics s' = diagnostics ?S @ [LOG_WARNING (''Duplicate extension load attempt: '' @ ext_id ?e)]"
    by auto
  then show ?thesis by (simp add: ex)
qed

text \<open>
  The claim as the spec states it, a diagnostic for every such load, fails where the
  load is not permitted: with extensions disabled, an unpacked extension \<open>''a''\<close> of
  version 1.0 registered, and the same version of \<open>''a''\<close> loaded from an ordinary install,
  \<^verbatim>\<open>OnExtensionLoaded\<close> returns the state as it was: no notification, no log line, no
  error report.
\<close>
theorem OnExtensionLoaded_stale_version_silent:
  "reachable extensions_disabled_service
   \<and> GetExtensionByIdInternal ''a'' True True extensions_disabled_service = Some unpacked_a
   \<and> CompareTo example_env ''1.0'' (version unpacked_a) \<le> 0
   \<and> OnExtensionLoaded example_env (example_extension 2 ''a'' ''1.0'') True
        extensions_disabled_service = Inr extensions_disabled_service"
  using reachable_extensions_disabled_service
  by (simp add: ex extensions_disabled_service_def OnExtensionLoaded_def IsExternalLocation_def
      example_extension_def)

subsection \<open>C5: an update for an unknown identifier\<close>

text \<open>
  Claim C5. When an identifier is not in the pending map and no registered record
  (enabled or disabled) has it, \<^verbatim>\<open>UpdateExtension\<close> leaves the state as it was but for
  two things: the deletion of the bundle file is posted, and a warning is logged. No
  installer is created, and both lists and the pending map are unchanged.
\<close>
theorem UpdateExtension_unknown_identifier:
  assumes "pending_extensions s eid = None"
      and "\<forall>e \<in> set (extensions s @ disabled_extensions s). ext_id e \<noteq> StringToLowerASCII eid"
  shows "UpdateExtension eid file_path download_url s =
           s\<lparr>posted_tasks := posted_tasks s @ [Task_DeleteFileHelper file_path False],
             diagnostics := diagnostics s @
               [LOG_WARNING (''Will not update extension '' @ eid
                  @ '' because it is not installed or pending'')]\<rparr>"
proof -
  have "first_with_id (StringToLowerASCII eid) (extensions s) = None"
       "first_with_id (StringToLowerASCII eid) (disabled_extensions s) = None"
    using assms(2) by (auto simp: first_with_id_None)
  then have "GetExtensionByIdInternal eid True True s = None"
    by (simp add: GetExtensionByIdInternal_def Let_def)
  then show ?thesis
    using assms(1) by (simp add: UpdateExtension_def PostTask_def Log_def)
qed

theorem UpdateExtension_unknown_identifier_witness:
  "UpdateExtension ''b'' ''/tmp/b.crx'' ''http://example/b.crx''
     (example_service\<lparr>extensions := [example_extension 1 ''a'' ''1.0'']\<rparr>)
   = example_service\<lparr>extensions := [example_extension 1 ''a'' ''1.0''],
       posted_tasks := [Task_DeleteFileHelper ''/tmp/b.crx'' False],
       diagnostics := [LOG_WARNING ''Will not update extension b because it is not installed or pending'']\<rparr>"
  using UpdateExtension_unknown_identifier[of
            "example_service\<lparr>extensions := [example_extension 1 ''a'' ''1.0'']\<rparr>" "''b''"
            "''/tmp/b.crx''" "''http://example/b.crx''"]
  by (simp add: example_defs)

subsection \<open>C6: an external extension that is already registered\<close>

text \<open>
  Claim C6. Let \<open>ex\<close> be the record the enabled list holds for an identifier, and let
  the discovered version string parse to a version. When \<^verbatim>\<open>CompareTo\<close> finds the
  registered version older (\<open>- 1\<close>), \<^verbatim>\<open>OnExternalExtensionFound\<close> starts an installer for
  the file, with the location as install source, the identifier expected and the
  privilege increase allowed, and changes nothing else. When the versions are equal
  (\<open>0\<close>) it returns the state as it was. When the registered version is newer (\<open>1\<close>) it
  logs a warning and changes nothing else.
\<close>
theorem OnExternalExtensionFound_registered:
  assumes "first_with_id (StringToLowerASCII eid) (extensions s) = Some ex"
      and "GetVersionFromString env version_string = Some v"
  shows "(CompareTo env (version ex) v = - 1 \<longrightarrow>
            OnExternalExtensionFound env eid version_string crx_path loc s =
              Inr (s\<lparr>installers := installers s @
                     [\<lparr>installer_directory = install_directory s,
                       installer_has_client = False,
                       installer_setters =
                         [set_install_source loc, set_expected_id eid,
                          set_allow_privilege_increase True],
                       InstallCrx = crx_path\<rparr>]\<rparr>))
       \<and> (CompareTo env (version ex) v = 0 \<longrightarrow>
            OnExternalExtensionFound env eid version_string crx_path loc s = Inr s)
       \<and> (CompareTo env (version ex) v = 1 \<longrightarrow>
            OnExternalExtensionFound env eid version_string crx_path loc s =
              Inr (s\<lparr>diagnostics := diagnostics s @
                     [LOG_WARNING (''Found external version of extension '' @ eid
                        @ ''that is older than current version. Current version ''
                        @ ''is: '' @ version ex @ ''. New version ''
                        @ ''is: '' @ version_string @ ''. Keeping current version.'')]\<rparr>))"
  using assms
  by (simp add: OnExternalExtensionFound_def GetExtensionById_def GetExtensionByIdInternal_def
      Log_def Let_def)

theorem OnExternalExtensionFound_registered_witness:
  "OnExternalExtensionFound example_env ''ext1'' ''1.0'' ''/external/ext1.crx'' EXTERNAL_PREF
     (example_service\<lparr>extensions := [example_extension 1 ''ext1'' ''2.0'']\<rparr>)
   = Inr (example_service\<lparr>extensions := [example_extension 1 ''ext1'' ''2.0''],
       diagnostics := [LOG_WARNING (''Found external version of extension ext1''
                            @ ''that is older than current version. Current version ''
                            @ ''is: 2.0. New version is: 1.0. Keeping current version.'')]\<rparr>)"
  using OnExternalExtensionFound_registered[of "''ext1''"
      "example_service\<lparr>extensions := [example_extension 1 ''ext1'' ''2.0'']\<rparr>"
      "example_extension 1 ''ext1'' ''2.0''" example_env "''1.0''" "''1.0''"
      "''/external/ext1.crx''" EXTERNAL_PREF]
  by (simp add: example_defs)

subsection \<open>C7: the two lists are disjoint\<close>

text \<open>
  Claim C7. In every reachable state of the service no identifier is in both the enabled
  and the disabled list, and no record is. The reachable states are closed under every
  operation (enable, disable, load, install, unload, uninstall, reload, blacklist
  update and the others), so each of them preserves this.
\<close>
theorem reachable_lists_disjoint:
  assumes "reachable s"
  shows "ext_id ` set (extensions s) \<inter> ext_id ` set (disabled_extensions s) = {}
         \<and> set (extensions s) \<inter> set (disabled_extensions s) = {}"
  using reachable_registry_ok[OF assms]
  by (auto simp: registry_ok_def registered_def)

theorem reachable_lists_disjoint_witness:
  "ext_id ` set (extensions (DisableExtension ''bad1'' (EnableExtension ''bad1'' disabled_bad1_service)))
     \<inter> ext_id ` set (disabled_extensions
                         (DisableExtension ''bad1'' (EnableExtension ''bad1'' disabled_bad1_service))) = {}
   \<and> set (extensions (DisableExtension ''bad1'' (EnableExtension ''bad1'' disabled_bad1_service)))
     \<inter> set (disabled_extensions
                (DisableExtension ''bad1'' (EnableExtension ''bad1'' disabled_bad1_service))) = {}"
  by (rule reachable_lists_disjoint[OF reachable.after_DisableExtension[OF
        reachable.after_EnableExtension[OF reachable_disabled_bad1_service]]])

subsection \<open>C8: unload, then reload\<close>

text \<open>
  Claim C8, as the code has it. Let \<open>e\<close> be registered (enabled or disabled) in a
  well-formed registry, with a non-empty path, and let no manifest be persisted for its
  identifier. Then \<^verbatim>\<open>UnloadExtension\<close> returns, the record is gone from the list that
  held it (each list keeps exactly its records of other identifiers), and the
  unloaded-path map holds its path under its identifier. \<^verbatim>\<open>ReloadExtension\<close> right
  afterwards returns and does one thing: it posts the load of exactly that path.

  What the posted load restores depends on the disk and on the service. Let the bundle
  found at the absolute form of the path still yield the same extension, as an object at
  an address \<open>a\<close> that no record still registered has (the address of the record just
  freed may be used again), and let no pending entry for the identifier expect the other
  kind (theme or not). Then running the posted load returns, and the persisted state of
  the identifier places the restored record, which is \<open>e\<close> at address \<open>a\<close> with install
  location \<^verbatim>\<open>LOAD\<close> and the upgrade mark cleared: enabled, it is appended to the enabled
  list; disabled, it is appended to the disabled list; for any other persisted state no
  record is restored. The lists gain nothing else.
\<close>
theorem unload_reload_round_trip:
  assumes ok: "registry_ok s" and reg: "e \<in> set (registered s)"
      and nonempty: "path e \<noteq> []"
      and no_manifest: "case Prefs_GetInstalledExtensionInfo (ext_id e) (extension_prefs s) of
                          None \<Rightarrow> True | Some info \<Rightarrow> extension_manifest info = None"
      and disk: "LoadExtension_from_disk env (AbsolutePath env (path e)) = Inr (e\<lparr>addr := a\<rparr>)"
      and new: "a \<notin> addr ` set (filter (\<lambda>x. ext_id x \<noteq> ext_id e) (registered s))"
      and pend: "case pending_extensions s (ext_id e) of
                   None \<Rightarrow> True | Some info \<Rightarrow> is_theme info = IsTheme e"
  shows "\<exists>s1 s2 s3.
           UnloadExtension (ext_id e) s = Inr s1
           \<and> extensions s1 = filter (\<lambda>x. ext_id x \<noteq> ext_id e) (extensions s)
           \<and> disabled_extensions s1 = filter (\<lambda>x. ext_id x \<noteq> ext_id e) (disabled_extensions s)
           \<and> e \<notin> set (registered s1)
           \<and> unloaded_extension_paths s1 = (unloaded_extension_paths s)(ext_id e \<mapsto> path e)
           \<and> ReloadExtension env (ext_id e) s1 = Inr s2
           \<and> s2 = s1\<lparr>posted_tasks := posted_tasks s1 @ [Task_LoadSingleExtension (path e)]\<rparr>
           \<and> run_ui_task env (LoadSingleExtension env (path e)) s2 = Inr s3
           \<and> extensions s3 = filter (\<lambda>x. ext_id x \<noteq> ext_id e) (extensions s)
                @ (if Prefs_GetExtensionState (ext_id e) (extension_prefs s) = ENABLED
                   then [e\<lparr>addr := a, location := LOAD, being_upgraded := False\<rparr>] else [])
           \<and> disabled_extensions s3 = filter (\<lambda>x. ext_id x \<noteq> ext_id e) (disabled_extensions s)
                @ (if Prefs_GetExtensionState (ext_id e) (extension_prefs s) = DISABLED
                   then [e\<lparr>addr := a, location := LOAD, being_upgraded := False\<rparr>] else [])"
proof -
  from UnloadExtension_registered[OF ok reg]
  obtain s1 where un: "UnloadExtension (ext_id e) s = Inr s1"
     and l1: "extensions s1 = filter (\<lambda>x. ext_id x \<noteq> ext_id e) (extensions s)"
       "disabled_extensions s1 = filter (\<lambda>x. ext_id x \<noteq> ext_id e) (disabled_extensions s)"
       "unloaded_extension_paths s1 = (unloaded_extension_paths s)(ext_id e \<mapsto> path e)"
       "extension_prefs s1 = extension_prefs s" "pending_extensions s1 = pending_extensions s"
    by auto
  have s1: "extensions s1 = filter (\<lambda>x. ext_id x \<noteq> ext_id e) (extensions s)"
     "disabled_extensions s1 = filter (\<lambda>x. ext_id x \<noteq> ext_id e) (disabled_extensions s)"
     "unloaded_extension_paths s1 (ext_id e) = Some (path e)"
     "extension_prefs s1 = extension_prefs s" "pending_extensions s1 = pending_extensions s"
    by (simp_all add: l1)
  have reg1: "registered s1 = filter (\<lambda>x. ext_id x \<noteq> ext_id e) (registered s)"
    by (simp add: registered_def s1)
  have gone: "e \<notin> set (registered s1)" by (simp add: reg1)
  have low: "StringToLowerASCII (ext_id e) = ext_id e" using ok reg by (rule registered_lowercase)
  have absent: "ext_id e \<notin> ext_id ` set (registered s1)" by (auto simp: reg1)
  then have look_en: "first_with_id (ext_id e) (extensions s1) = None"
    by (auto simp: first_with_id_None registered_def)
  have cur: "GetExtensionById (ext_id e) False s1 = None"
    by (simp add: GetExtensionById_def GetExtensionByIdInternal_def Let_def low look_en)
  define s2 where "s2 = s1\<lparr>posted_tasks := posted_tasks s1 @ [Task_LoadSingleExtension (path e)]\<rparr>"
  have rel: "ReloadExtension env (ext_id e) s1 = Inr s2"
    using no_manifest nonempty
    by (simp add: ReloadExtension_def cur s1 LoadExtension_def PostTask_def s2_def
        split: option.splits)
  define e' where "e' = e\<lparr>addr := a, location := LOAD\<rparr>"
  have task: "LoadSingleExtension env (path e) = UI_OnExtensionInstalled e' True"
    by (simp add: LoadSingleExtension_def Let_def disk e'_def)
  have e': "ext_id e' = ext_id e" "addr e' = a" "IsTheme e' = IsTheme e" "location e' = LOAD"
     "e'\<lparr>being_upgraded := False\<rparr> = e\<lparr>addr := a, location := LOAD, being_upgraded := False\<rparr>"
    by (simp_all add: e'_def)
  define s2a where "s2a =
     (if IsTheme e'
      then Notify THEME_INSTALLED (ExtensionDetails e')
             (s2\<lparr>extension_prefs := Prefs_OnExtensionInstalled e' (extension_prefs s2)\<rparr>)
      else Notify EXTENSION_INSTALLED (ExtensionDetails e')
             (s2\<lparr>extension_prefs := Prefs_OnExtensionInstalled e' (extension_prefs s2)\<rparr>))"
  have s2a: "extensions s2a = extensions s1" "disabled_extensions s2a = disabled_extensions s1"
     "Prefs_GetExtensionState (ext_id e) (extension_prefs s2a)
        = Prefs_GetExtensionState (ext_id e) (extension_prefs s)"
    by (simp_all add: s2a_def s2_def Notify_def s1 Prefs_GetExtensionState_def
        Prefs_OnExtensionInstalled_def)
  have reg2a: "registered s2a = registered s1" using s2a(1,2) by (rule registered_cong)
  have fr: "fresh e' s2a" using new by (simp add: fresh_def reg2a reg1 e')
  have permitted: "load_permitted e' s2a" by (simp add: load_permitted_def e')
  have none: "GetExtensionByIdInternal (ext_id e') True True s2a = None"
    using absent by (simp add: lookup_None reg2a e' low)
  from OnExtensionLoaded_new[OF fr permitted none, of env True]
  obtain s3 where s3: "OnExtensionLoaded env e' True s2a = Inr s3"
    "extensions s3 = extensions s2a
                 @ (if Prefs_GetExtensionState (ext_id e') (extension_prefs s2a) = ENABLED
                    then [e'\<lparr>being_upgraded := False\<rparr>] else [])"
    "disabled_extensions s3 = disabled_extensions s2a
                 @ (if Prefs_GetExtensionState (ext_id e') (extension_prefs s2a) = DISABLED
                    then [e'\<lparr>being_upgraded := False\<rparr>] else [])"
    by blast
  define s4 where "s4 = (if pending_extensions s2 (ext_id e') \<noteq> None
                     then s3\<lparr>pending_extensions := (pending_extensions s3)(ext_id e' := None)\<rparr>
                     else s3)"
  have pend2: "\<not> (case pending_extensions s2 (ext_id e') of None \<Rightarrow> False
                    | Some info \<Rightarrow> is_theme info \<noteq> IsTheme e')"
    using pend by (simp add: s2_def s1 e' split: option.splits)
  have run: "run_ui_task env (LoadSingleExtension env (path e)) s2 = Inr s4"
    using pend2 s3(1)
    by (simp add: task OnExtensionInstalled_def Let_def s2a_def[symmetric] s4_def)
  have lists4: "extensions s4 = extensions s3" "disabled_extensions s4 = disabled_extensions s3"
    by (simp_all add: s4_def)
  have final: "extensions s4 = filter (\<lambda>x. ext_id x \<noteq> ext_id e) (extensions s)
                @ (if Prefs_GetExtensionState (ext_id e) (extension_prefs s) = ENABLED
                   then [e\<lparr>addr := a, location := LOAD, being_upgraded := False\<rparr>] else [])"
       "disabled_extensions s4 = filter (\<lambda>x. ext_id x \<noteq> ext_id e) (disabled_extensions s)
                @ (if Prefs_GetExtensionState (ext_id e) (extension_prefs s) = DISABLED
                   then [e\<lparr>addr := a, location := LOAD, being_upgraded := False\<rparr>] else [])"
    by (simp_all add: lists4 s3 s2a e' s1)
  show ?thesis
    using un l1(1,2,3) gone rel s2_def run final by blast
qed

theorem unload_reload_round_trip_witness:
  "(case UnloadExtension ''a'' (example_service\<lparr>extensions := [example_extension 1 ''a'' ''1.0'']\<rparr>) of
      Inl err \<Rightarrow> False
    | Inr s1 \<Rightarrow>
        registered s1 = [] \<and> unloaded_extension_paths s1 = [''a'' \<mapsto> ''/ext/a'']
        \<and> (case ReloadExtension example_env ''a'' s1 of
              Inl err \<Rightarrow> False
            | Inr s2 \<Rightarrow>
                posted_tasks s2 = [Task_OnUnloadedExtension ''a'',
                                   Task_LoadSingleExtension ''/ext/a'']
                \<and> (case run_ui_task example_env (LoadSingleExtension example_env ''/ext/a'') s2 of
                      Inl err \<Rightarrow> False
                    | Inr s3 \<Rightarrow>
                        extensions s3 = [(example_extension 7 ''a'' ''1.0'')\<lparr>location := LOAD\<rparr>]
                        \<and> disabled_extensions s3 = [])))"
proof -
  let ?S = "example_service\<lparr>extensions := [example_extension 1 ''a'' ''1.0'']\<rparr>"
  let ?e = "example_extension 1 ''a'' ''1.0''"
  have h1: "registry_ok ?S" by (simp add: ex)
  have h2: "?e \<in> set (registered ?S)" by (simp add: ex)
  have h3: "path ?e \<noteq> []" by (simp add: ex)
  have h4: "case Prefs_GetInstalledExtensionInfo (ext_id ?e) (extension_prefs ?S) of
                          None \<Rightarrow> True | Some info \<Rightarrow> extension_manifest info = None"
    by (simp add: ex)
  have h6: "LoadExtension_from_disk example_env (AbsolutePath example_env (path ?e))
              = Inr (?e\<lparr>addr := 7\<rparr>)"
    by (simp add: ex) (simp add: example_extension_def)
  have h7: "7 \<notin> addr ` set (filter (\<lambda>x. ext_id x \<noteq> ext_id ?e) (registered ?S))"
    by (simp add: ex)
  have h8: "case pending_extensions ?S (ext_id ?e) of
                   None \<Rightarrow> True | Some info \<Rightarrow> is_theme info = IsTheme ?e"
    by (simp add: ex)
  have st: "Prefs_GetExtensionState (ext_id ?e) (extension_prefs ?S) = ENABLED"
    by (simp add: ex)
  from unload_reload_round_trip[OF h1 h2 h3 h4 h6 h7 h8]
  obtain s1 s2 s3 where r:
    "UnloadExtension (ext_id ?e) ?S = Inr s1"
    "extensions s1 = filter (\<lambda>x. ext_id x \<noteq> ext_id ?e) (extensions ?S)"
    "disabled_extensions s1 = filter (\<lambda>x. ext_id x \<noteq> ext_id ?e) (disabled_extensions ?S)"
    "unloaded_extension_paths s1 = (unloaded_extension_paths ?S)(ext_id ?e \<mapsto> path ?e)"
    "ReloadExtension example_env (ext_id ?e) s1 = Inr s2"
    "s2 = s1\<lparr>posted_tasks := posted_tasks s1 @ [Task_LoadSingleExtension (path ?e)]\<rparr>"
    "run_ui_task example_env (LoadSingleExtension example_env (path ?e)) s2 = Inr s3"
    "extensions s3 = filter (\<lambda>x. ext_id x \<noteq> ext_id ?e) (extensions ?S)
         @ (if Prefs_GetExtensionState (ext_id ?e) (extension_prefs ?S) = ENABLED
            then [?e\<lparr>addr := 7, location := LOAD, being_upgraded := False\<rparr>] else [])"
    "disabled_extensions s3 = filter (\<lambda>x. ext_id x \<noteq> ext_id ?e) (disabled_extensions ?S)
         @ (if Prefs_GetExtensionState (ext_id ?e) (extension_prefs ?S) = DISABLED
            then [?e\<lparr>addr := 7, location := LOAD, being_upgraded := False\<rparr>] else [])"
    by blast
  have "registered s1 = []" using r(2,3) by (simp add: ex)
  moreover have "posted_tasks s2 = [Task_OnUnloadedExtension ''a'',
                                     Task_LoadSingleExtension ''/ext/a'']"
  proof -
    have "UnloadExtension ''a'' ?S = Inr s1" using r(1) by (simp add: ex)
    then have "posted_tasks s1 = [Task_OnUnloadedExtension ''a'']"
      by (auto simp: UnloadExtension_def Let_def Notify_def NotifyExtensionUnloaded_def
          PostTask_def ex split: option.splits if_splits)
    then show ?thesis using r(6) by (simp add: ex)
  qed
  moreover have "extensions s3 = [(example_extension 7 ''a'' ''1.0'')\<lparr>location := LOAD\<rparr>]"
    using r(8) st by (simp add: ex example_extension_def)
  moreover have "disabled_extensions s3 = []"
    using r(9) st by (simp add: ex)
  ultimately show ?thesis using r(1,4,5,7) by (simp add: ex)
qed

text \<open>
  The claim as the spec states it, a restored record after every such unload and reload,
  fails where a pending entry expects the other kind: extension \<open>''a''\<close>, not a theme, is
  registered with no persisted manifest while a pending entry for \<open>''a''\<close> expects a theme.
  Unload and reload go as claimed, and the load of \<open>''/ext/a''\<close> is posted; but when
  that load reports back, the install is rejected, nothing is registered, and the
  deletion of the directory is posted.
\<close>
theorem unload_reload_pending_theme:
  "reachable pending_theme_service
   \<and> registered pending_theme_service = [example_extension 1 ''a'' ''1.0'']
   \<and> Prefs_GetInstalledExtensionInfo ''a'' (extension_prefs pending_theme_service) = None
   \<and> (case UnloadExtension ''a'' pending_theme_service of
      Inl err \<Rightarrow> False
    | Inr s1 \<Rightarrow>
        registered s1 = [] \<and> unloaded_extension_paths s1 ''a'' = Some ''/ext/a''
        \<and> (case ReloadExtension example_env ''a'' s1 of
              Inl err \<Rightarrow> False
            | Inr s2 \<Rightarrow>
                posted_tasks s2 = [Task_OnUnloadedExtension ''a'',
                                   Task_LoadSingleExtension ''/ext/a'']
                \<and> (case run_ui_task example_env (LoadSingleExtension example_env ''/ext/a'') s2 of
                      Inl err \<Rightarrow> False
                    | Inr s3 \<Rightarrow>
                        registered s3 = []
                        \<and> posted_tasks s3 = [Task_OnUnloadedExtension ''a'',
                                             Task_LoadSingleExtension ''/ext/a'',
                                             Task_DeleteFileHelper ''/ext/a'' True])))"
  using reachable_pending_theme_service
  by (simp add: ex pending_theme_service_def UnloadExtension_def Notify_def
      NotifyExtensionUnloaded_def ReloadExtension_def GetExtensionById_def LoadExtension_def
      PostTask_def LoadSingleExtension_def OnExtensionInstalled_def Log_def)

subsection \<open>C9: enable and disable from the wrong list\<close>

text \<open>
  Claim C9, as the code has it. \<^verbatim>\<open>EnableExtension\<close> for an identifier that no record of
  the disabled list has records the failed assertion and changes nothing else.
  \<^verbatim>\<open>DisableExtension\<close> for an identifier that no record of the enabled list has returns
  the state as it was, and reports nothing. In both cases the two lists and the persisted
  enable state are unchanged and no notification is sent.
\<close>
theorem Enable_Disable_not_in_source_list:
  "(StringToLowerASCII eid \<notin> ext_id ` set (disabled_extensions s) \<longrightarrow>
      EnableExtension eid s =
        s\<lparr>diagnostics := diagnostics s @
             [NOTREACHED ''Trying to enable an extension that isn't disabled.'']\<rparr>)
   \<and> (StringToLowerASCII eid \<notin> ext_id ` set (extensions s) \<longrightarrow> DisableExtension eid s = s)"
proof -
  have a: "StringToLowerASCII eid \<notin> ext_id ` set (disabled_extensions s) \<Longrightarrow>
           GetExtensionByIdInternal eid False True s = None"
    by (simp add: GetExtensionByIdInternal_def Let_def first_with_id_None[symmetric])
  have b: "StringToLowerASCII eid \<notin> ext_id ` set (extensions s) \<Longrightarrow>
           GetExtensionByIdInternal eid True False s = None"
    using first_with_id_None[of "StringToLowerASCII eid" "extensions s"]
    by (simp add: GetExtensionByIdInternal_def Let_def)
  show ?thesis
    using a b by (simp add: EnableExtension_def DisableExtension_def Log_def)
qed

theorem Enable_Disable_not_in_source_list_witness:
  "EnableExtension ''x'' example_service
     = example_service\<lparr>diagnostics :=
         [NOTREACHED ''Trying to enable an extension that isn't disabled.'']\<rparr>
   \<and> DisableExtension ''x'' example_service = example_service"
  using Enable_Disable_not_in_source_list[of "''x''" example_service]
  by (simp add: ex)

text \<open>
  The claim as the spec states it, a report on the diagnostic channel in both cases,
  fails for \<^verbatim>\<open>DisableExtension\<close>: on the newly constructed service, which holds no
  extension \<open>''x''\<close>, it leaves the log, the error reports and the notifications empty.
\<close>
theorem DisableExtension_reports_nothing:
  "reachable example_service
   \<and> StringToLowerASCII ''x'' \<notin> ext_id ` set (extensions example_service)
   \<and> diagnostics (DisableExtension ''x'' example_service) = []
   \<and> error_reports (DisableExtension ''x'' example_service) = []
   \<and> notifications (DisableExtension ''x'' example_service) = []"
  by (simp add: ex DisableExtension_def reachable.constructed)

subsection \<open>C10: a load that is not permitted\<close>

text \<open>
  Claim C10. While extensions are disabled, \<^verbatim>\<open>OnExtensionLoaded\<close> for an extension that
  is not a theme, not unpacked and not external returns the state as it was but for one
  thing: the entry of its identifier in the unloaded-path map is erased. Neither list
  gains a record and no notification is sent.
\<close>
theorem OnExtensionLoaded_not_permitted:
  assumes "\<not> extensions_enabled s" and "\<not> IsTheme extension"
      and "location extension \<noteq> LOAD" and "\<not> IsExternalLocation (location extension)"
  shows "OnExtensionLoaded env extension allow_privilege_increase s =
           Inr (s\<lparr>unloaded_extension_paths :=
                    (unloaded_extension_paths s)(ext_id extension := None)\<rparr>)"
  using assms by (simp add: OnExtensionLoaded_def)

theorem OnExtensionLoaded_not_permitted_witness:
  "OnExtensionLoaded example_env (example_extension 1 ''a'' ''1.0'') True
     (example_service\<lparr>extensions_enabled := False,
                      unloaded_extension_paths := [''a'' \<mapsto> ''/ext/a'']\<rparr>)
   = Inr (example_service\<lparr>extensions_enabled := False, unloaded_extension_paths := Map.empty\<rparr>)"
  using OnExtensionLoaded_not_permitted[of "example_service\<lparr>extensions_enabled := False,
                      unloaded_extension_paths := [''a'' \<mapsto> ''/ext/a'']\<rparr>"
               "example_extension 1 ''a'' ''1.0''" example_env True]
  by (simp add: example_defs IsExternalLocation_def)

end
